theory Spec2Isabelle
  imports Complex_Main
begin

section \<open>JavaScript values\<close>

text \<open>
  The values that flow through \<^verbatim>\<open>App.js\<close>: what a JSON response body can hold, the
  \<^verbatim>\<open>null\<close> the price starts as, and the \<^verbatim>\<open>NaN\<close> and the infinities that
  \<^verbatim>\<open>parseInt\<close> can return. A finite number is held as the rational it is equal to;
  \<open>parseInt\<close> rounds its result to a double, as the code does.
\<close>

datatype jsval =
    JUndefined
  | JNull
  | JBool bool
  | JNum rat
  | JNaN
  | JInfinity
  | JNegInfinity
  | JStr string
  | JArr "jsval list"
  | JObj "(string \<times> jsval) list"

text \<open>ToBoolean, as the \<^verbatim>\<open>&&\<close> guards of the JSX use it.\<close>

fun truthy :: "jsval \<Rightarrow> bool" where
  "truthy JUndefined = False"
| "truthy JNull = False"
| "truthy (JBool b) = b"
| "truthy (JNum r) = (r \<noteq> 0)"
| "truthy JNaN = False"
| "truthy JInfinity = True"
| "truthy JNegInfinity = True"
| "truthy (JStr s) = (s \<noteq> [])"
| "truthy (JArr vs) = True"
| "truthy (JObj fs) = True"

datatype js_error = AxiosError | TypeError

text \<open>
  The property read \<^verbatim>\<open>data.predicted_price\<close>: a TypeError on \<^verbatim>\<open>null\<close> and
  \<^verbatim>\<open>undefined\<close>, the field of an object, \<^verbatim>\<open>undefined\<close> where there is no such field.
\<close>

fun predicted_price :: "jsval \<Rightarrow> js_error + jsval" where
  "predicted_price JUndefined = Inl TypeError"
| "predicted_price JNull = Inl TypeError"
| "predicted_price (JObj fs) =
     Inr (case map_of fs ''predicted_price'' of None \<Rightarrow> JUndefined | Some v \<Rightarrow> v)"
| "predicted_price v = Inr JUndefined"

subsection \<open>parseInt\<close>

definition is_whitespace :: "char \<Rightarrow> bool" where
  "is_whitespace c =
     (c = CHR '' '' \<or> c = CHR 0x09 \<or> c = CHR 0x0A \<or> c = CHR 0x0B \<or> c = CHR 0x0C
      \<or> c = CHR 0x0D \<or> c = CHR 0xA0)"

definition digit_of :: "nat \<Rightarrow> char \<Rightarrow> nat option" where
  "digit_of radix c =
     (let n = (of_char c :: nat);
          d = (if 48 \<le> n \<and> n \<le> 57 then Some (n - 48)
               else if 97 \<le> n \<and> n \<le> 122 then Some (n - 87)
               else if 65 \<le> n \<and> n \<le> 90 then Some (n - 55)
               else None)
      in case d of None \<Rightarrow> None | Some v \<Rightarrow> if v < radix then Some v else None)"

definition is_digit :: "nat \<Rightarrow> char \<Rightarrow> bool" where
  "is_digit radix c = (digit_of radix c \<noteq> None)"

definition digits_value :: "nat \<Rightarrow> string \<Rightarrow> nat" where
  "digits_value radix ds =
     foldl (\<lambda>acc c. acc * radix + (case digit_of radix c of None \<Rightarrow> 0 | Some v \<Rightarrow> v)) 0 ds"

text \<open>
  The Number value of an integer: the double nearest to it, ties going to the even
  mantissa. \<open>mantissa_shift n\<close> is the number of low bits that do not fit the 53 bits
  of a double's mantissa; they are rounded away. What rounds to \<open>2 ^ 1024\<close> or more
  is an infinity. Below \<open>2 ^ 53\<close> nothing is rounded.
\<close>

function mantissa_shift :: "nat \<Rightarrow> nat" where
  "mantissa_shift n = (if n < 2 ^ 53 then 0 else Suc (mantissa_shift (n div 2)))"
  by pat_completeness auto
termination
  by (relation "measure id") auto

declare mantissa_shift.simps [simp del]

definition nearest_double :: "nat \<Rightarrow> nat" where
  "nearest_double n =
     (let e = mantissa_shift n;
          q = n div 2 ^ e;
          r = n mod 2 ^ e
      in if 2 * r < 2 ^ e \<or> (2 * r = 2 ^ e \<and> even q) then q * 2 ^ e else (q + 1) * 2 ^ e)"

definition js_number :: "bool \<Rightarrow> nat \<Rightarrow> jsval" where
  "js_number negative n =
     (let d = nearest_double n
      in if 2 ^ 1024 \<le> d then (if negative then JNegInfinity else JInfinity)
         else if negative then JNum (- of_nat d)
         else JNum (of_nat d))"

text \<open>
  \<^verbatim>\<open>parseInt(string)\<close> with no radix argument: leading white space is skipped, one sign is
  read, a \<^verbatim>\<open>0x\<close> prefix selects radix 16, the longest run of digits is the value, and
  no digit at all gives \<^verbatim>\<open>NaN\<close>. Whatever follows the digits is ignored. The value
  is returned as a Number, so a long run of digits is rounded to the nearest double.
  Characters are bytes here, so the white space is the white space that fits a byte;
  \<^verbatim>\<open>-0\<close> is 0; the leave ECMAScript gives an implementation to read the digits
  after the 20th as 0 is not taken.
\<close>

definition parseInt :: "string \<Rightarrow> jsval" where
  "parseInt inputString =
     (let S = dropWhile is_whitespace inputString;
          negative = (case S of [] \<Rightarrow> False | c # cs \<Rightarrow> c = CHR ''-'');
          S1 = (case S of [] \<Rightarrow> [] | c # cs \<Rightarrow> if c = CHR ''+'' \<or> c = CHR ''-'' then cs else S);
          hex = (take 2 S1 = ''0x'' \<or> take 2 S1 = ''0X'');
          R = (if hex then 16 else 10);
          S2 = (if hex then drop 2 S1 else S1);
          Z = takeWhile (is_digit R) S2
      in if Z = [] then JNaN else js_number negative (digits_value R Z))"

subsection \<open>Numbers in template literals\<close>

function string_of_nat :: "nat \<Rightarrow> string" where
  "string_of_nat n =
     (if n < 10 then [char_of (48 + n)]
      else string_of_nat (n div 10) @ [char_of (48 + n mod 10)])"
  by pat_completeness auto
termination
  by (relation "measure id") auto

declare string_of_nat.simps [simp del]

section \<open>The remote service\<close>

datatype response = Response (data: jsval)

text \<open>
  The service is outside the program. A network says how the \<open>k\<close>-th request of a
  submission ends for the URL it asks (request 0 is the primary one, requests 1 to 5 are
  the sweep in the order it is issued), and in which order the answers arrive; a request
  whose number is not in \<open>arrival\<close> is never answered.
\<close>

record network =
  answer :: "nat \<Rightarrow> string \<Rightarrow> js_error + response"
  arrival :: "nat list"

definition predict_url :: "string \<Rightarrow> string \<Rightarrow> string" where
  "predict_url sf bd = ''http://localhost:8000/predict/'' @ sf @ ''/'' @ bd"

text \<open>\<^verbatim>\<open>.then(res => res.data.predicted_price)\<close> on the promise of a request.\<close>

definition then_predicted_price :: "js_error + response \<Rightarrow> js_error + jsval" where
  "then_predicted_price p =
     (case p of Inl reason \<Rightarrow> Inl reason | Inr res \<Rightarrow> predicted_price (data res))"

subsection \<open>Promise.all\<close>

text \<open>
  The join keeps an array of values, the elements already settled and the count of
  elements still missing. A fulfilled element writes its value at its own index; the
  last one resolves the join with the array. A rejected element rejects the join.
  Once settled the join never changes.
\<close>

record all_state =
  vals :: "jsval list"
  alreadyCalled :: "nat list"
  remainingElementsCount :: nat
  settled :: "(js_error + jsval list) option"

definition settle_element :: "(js_error + jsval) list \<Rightarrow> nat \<Rightarrow> all_state \<Rightarrow> all_state" where
  "settle_element promises index s =
     (if length promises \<le> index \<or> index \<in> set (alreadyCalled s) then s
      else
        (case promises ! index of
           Inl reason \<Rightarrow>
             s\<lparr>alreadyCalled := index # alreadyCalled s,
               settled := (case settled s of None \<Rightarrow> Some (Inl reason) | Some r \<Rightarrow> Some r)\<rparr>
         | Inr v \<Rightarrow>
             (let vs = (vals s)[index := v];
                  n = remainingElementsCount s - 1
              in s\<lparr>vals := vs,
                   alreadyCalled := index # alreadyCalled s,
                   remainingElementsCount := n,
                   settled := (case settled s of
                                 None \<Rightarrow> if n = 0 then Some (Inr vs) else None
                               | Some r \<Rightarrow> Some r)\<rparr>)))"

definition all_init :: "(js_error + jsval) list \<Rightarrow> all_state" where
  "all_init promises =
     \<lparr>vals = replicate (length promises) JUndefined,
      alreadyCalled = [],
      remainingElementsCount = length promises,
      settled = (if promises = [] then Some (Inr []) else None)\<rparr>"

definition promise_all ::
  "(js_error + jsval) list \<Rightarrow> nat list \<Rightarrow> (js_error + jsval list) option" where
  "promise_all promises order = settled (fold (settle_element promises) order (all_init promises))"

section \<open>The component state and the chart\<close>

record dataset =
  label :: string
  points :: "jsval list"
  borderColor :: string
  backgroundColor :: string
  tension :: "rat option"
  pointRadius :: "nat option"
  pointHoverRadius :: "nat option"
  showLine :: "bool option"

record chart =
  labels :: "jsval list"
  datasets :: "dataset list"

record app_state =
  squareFootage :: string
  bedrooms :: string
  predictedPrice :: jsval
  error :: string
  chartData :: "chart option"
  loading :: bool

definition initial_state :: app_state where
  "initial_state =
     \<lparr>squareFootage = '''', bedrooms = '''', predictedPrice = JNull, error = '''',
      chartData = None, loading = False\<rparr>"

definition setSquareFootage :: "string \<Rightarrow> app_state \<Rightarrow> app_state" where
  "setSquareFootage v st = st\<lparr>squareFootage := v\<rparr>"

definition setBedrooms :: "string \<Rightarrow> app_state \<Rightarrow> app_state" where
  "setBedrooms v st = st\<lparr>bedrooms := v\<rparr>"

definition squareFootages :: "nat list" where
  "squareFootages = [1000, 1500, 2000, 2500, 3000]"

definition newChartData :: "string \<Rightarrow> jsval list \<Rightarrow> jsval \<Rightarrow> chart" where
  "newChartData sf predictions price =
     \<lparr>labels = map (\<lambda>n. JNum (of_nat n)) squareFootages,
      datasets =
        [\<lparr>label = ''Predicted Prices'',
          points = predictions,
          borderColor = ''rgb(75, 192, 192)'',
          backgroundColor = ''rgba(75, 192, 192, 0.5)'',
          tension = Some (1 / 10),
          pointRadius = None,
          pointHoverRadius = None,
          showLine = None\<rparr>,
         \<lparr>label = ''Your Prediction'',
          points = [JObj [(''x'', parseInt sf), (''y'', price)]],
          borderColor = ''rgb(255, 99, 132)'',
          backgroundColor = ''rgba(255, 99, 132, 0.5)'',
          tension = None,
          pointRadius = Some 8,
          pointHoverRadius = Some 12,
          showLine = Some False\<rparr>]\<rparr>"

section \<open>handleSubmit\<close>

text \<open>
  The handler is the sequence of effects it performs, in program order: the state
  setters, the requests it issues and the error it logs. The state it leaves is the
  state the setters produce, applied in that order.
\<close>

datatype event =
    PreventDefault
  | SetError string
  | SetPredictedPrice jsval
  | SetLoading bool
  | SetChartData chart
  | AxiosGet string
  | ConsoleError js_error

fun apply_event :: "event \<Rightarrow> app_state \<Rightarrow> app_state" where
  "apply_event PreventDefault st = st"
| "apply_event (SetError m) st = st\<lparr>error := m\<rparr>"
| "apply_event (SetPredictedPrice v) st = st\<lparr>predictedPrice := v\<rparr>"
| "apply_event (SetLoading b) st = st\<lparr>loading := b\<rparr>"
| "apply_event (SetChartData c) st = st\<lparr>chartData := Some c\<rparr>"
| "apply_event (AxiosGet url) st = st"
| "apply_event (ConsoleError err) st = st"

definition run :: "event list \<Rightarrow> app_state \<Rightarrow> app_state" where
  "run evs st = fold apply_event evs st"

text \<open>Lines 64 to 67 and the request of line 71: everything before the first await.\<close>

definition before_await :: "app_state \<Rightarrow> event list" where
  "before_await st =
     [PreventDefault, SetError '''', SetPredictedPrice JNull, SetLoading True,
      AxiosGet (predict_url (squareFootage st) (bedrooms st))]"

text \<open>The \<^verbatim>\<open>catch\<close> block followed by the \<^verbatim>\<open>finally\<close> block.\<close>

definition catch_finally :: "js_error \<Rightarrow> event list" where
  "catch_finally err =
     [SetError ''Error predicting price. Please try again.'', ConsoleError err,
      SetLoading False]"

definition sweep_urls :: "app_state \<Rightarrow> string list" where
  "sweep_urls st = map (\<lambda>sf. predict_url (string_of_nat sf) (bedrooms st)) squareFootages"

text \<open>The five promises of the sweep: request \<open>i + 1\<close> asks the \<open>i\<close>-th URL.\<close>

definition sweep_promises :: "network \<Rightarrow> app_state \<Rightarrow> (js_error + jsval) list" where
  "sweep_promises net st =
     map (\<lambda>(i, url). then_predicted_price (answer net (Suc i) url))
       (enumerate 0 (sweep_urls st))"

definition sweep_order :: "network \<Rightarrow> nat list" where
  "sweep_order net = map (\<lambda>k. k - 1) (filter (\<lambda>k. 0 < k) (arrival net))"

text \<open>
  The effects of one call and whether the call runs to its end. A call whose awaited
  promise never settles stops at the await, with the effects it had so far.
\<close>

definition handleSubmit_events :: "network \<Rightarrow> app_state \<Rightarrow> event list \<times> bool" where
  "handleSubmit_events net st =
     (if 0 \<notin> set (arrival net) then (before_await st, False)
      else
        (case answer net 0 (predict_url (squareFootage st) (bedrooms st)) of
           Inl err \<Rightarrow> (before_await st @ catch_finally err, True)
         | Inr response \<Rightarrow>
             (case predicted_price (data response) of
                Inl err \<Rightarrow> (before_await st @ catch_finally err, True)
              | Inr price \<Rightarrow>
                  (let issued = before_await st @ [SetPredictedPrice price]
                                @ map AxiosGet (sweep_urls st)
                   in case promise_all (sweep_promises net st) (sweep_order net) of
                        None \<Rightarrow> (issued, False)
                      | Some (Inl err) \<Rightarrow> (issued @ catch_finally err, True)
                      | Some (Inr predictions) \<Rightarrow>
                          (issued
                           @ [SetChartData (newChartData (squareFootage st) predictions price),
                              SetLoading False], True)))))"

text \<open>The state when the call has run to its end; \<open>None\<close> when it never does.\<close>

definition handleSubmit :: "network \<Rightarrow> app_state \<Rightarrow> app_state option" where
  "handleSubmit net st =
     (case handleSubmit_events net st of
        (evs, finished) \<Rightarrow> if finished then Some (run evs st) else None)"

text \<open>The requests a call issues, in the order it issues them.\<close>

fun requests :: "event list \<Rightarrow> string list" where
  "requests [] = []"
| "requests (AxiosGet url # evs) = url # requests evs"
| "requests (e # evs) = requests evs"

section \<open>What App returns\<close>

text \<open>
  The element tree of lines 114 to 212, reduced to the parts that depend on the state.
  A guard \<^verbatim>\<open>a && b\<close> evaluates to \<open>a\<close> itself when \<open>a\<close> is falsy, so a slot holds
  either the element or the falsy value of its guard. The price panel carries the price
  it prints (through \<^verbatim>\<open>toLocaleString\<close>, which is not modelled) and the chart slot.
\<close>

datatype chart_child = ChartFalsy | LineChart chart

datatype price_child = PriceFalsy jsval | PricePaper jsval chart_child

datatype error_child = ErrorFalsy string | ErrorTypography string

datatype button_child = CircularProgress | ButtonText string

record view =
  squareFootage_value :: string
  bedrooms_value :: string
  button_disabled :: bool
  button_content :: button_child
  error_slot :: error_child
  price_slot :: price_child

definition App :: "app_state \<Rightarrow> view" where
  "App st =
     \<lparr>squareFootage_value = squareFootage st,
      bedrooms_value = bedrooms st,
      button_disabled = loading st,
      button_content = (if loading st then CircularProgress else ButtonText ''Predict Price''),
      error_slot = (if error st \<noteq> [] then ErrorTypography (error st) else ErrorFalsy (error st)),
      price_slot =
        (if truthy (predictedPrice st)
         then PricePaper (predictedPrice st)
                (case chartData st of None \<Rightarrow> ChartFalsy | Some c \<Rightarrow> LineChart c)
         else PriceFalsy (predictedPrice st))\<rparr>"

text \<open>
  What React puts on the page for a plain value in child position: nothing for
  \<^verbatim>\<open>null\<close>, \<^verbatim>\<open>undefined\<close> and the booleans, the text of a number or of a string.
  Only the falsy values of a guard reach a child position here.
\<close>

datatype page_text = Nothing | TextOf jsval

fun react_child :: "jsval \<Rightarrow> page_text" where
  "react_child JUndefined = Nothing"
| "react_child JNull = Nothing"
| "react_child (JBool b) = Nothing"
| "react_child (JStr s) = (if s = [] then Nothing else TextOf (JStr s))"
| "react_child v = TextOf v"

section \<open>Reading a decimal numeral\<close>

text \<open>
  The number that a raw form text denotes, for the plain numerals a number field
  holds: an optional sign, digits, an optional fraction. This is the square footage as
  the service reads it from the URL; the handler itself never computes it. It is the
  reference that \<open>parseInt\<close> is compared with.
\<close>

definition decimal_reading :: "string \<Rightarrow> rat option" where
  "decimal_reading s =
     (let negative = (case s of [] \<Rightarrow> False | c # cs \<Rightarrow> c = CHR ''-'');
          s1 = (case s of [] \<Rightarrow> [] | c # cs \<Rightarrow> if c = CHR ''+'' \<or> c = CHR ''-'' then cs else s);
          ip = takeWhile (is_digit 10) s1;
          r1 = dropWhile (is_digit 10) s1;
          fp = (case r1 of [] \<Rightarrow> [] | c # cs \<Rightarrow> if c = CHR ''.'' then takeWhile (is_digit 10) cs else []);
          r2 = (case r1 of [] \<Rightarrow> [] | c # cs \<Rightarrow> if c = CHR ''.'' then dropWhile (is_digit 10) cs else r1);
          magnitude = of_nat (digits_value 10 ip) + of_nat (digits_value 10 fp) / 10 ^ length fp
      in if (ip = [] \<and> fp = []) \<or> r2 \<noteq> [] then None
         else Some (if negative then - magnitude else magnitude))"

section \<open>A mock service\<close>

text \<open>
  The collaborator of the spec's example scenario: it answers every request with the
  price \<open>200 * sf + 10000 * bedrooms\<close> read from the URL's path. The answers to the
  sweep arrive out of order, the one for 2000 first.
\<close>

definition mock_answer :: "nat \<Rightarrow> string \<Rightarrow> js_error + response" where
  "mock_answer k url =
     (let path = drop (length ''http://localhost:8000/predict/'') url;
          sf = takeWhile (\<lambda>c. c \<noteq> CHR ''/'') path;
          bd = drop 1 (dropWhile (\<lambda>c. c \<noteq> CHR ''/'') path)
      in case decimal_reading sf of
           None \<Rightarrow> Inl AxiosError
         | Some x \<Rightarrow>
             (case decimal_reading bd of
                None \<Rightarrow> Inl AxiosError
              | Some y \<Rightarrow> Inr (Response (JObj [(''predicted_price'', JNum (200 * x + 10000 * y))]))))"

definition mock_network :: network where
  "mock_network = \<lparr>answer = mock_answer, arrival = [0, 3, 1, 5, 2, 4]\<rparr>"

text \<open>The same service with the third request of the sweep rejected.\<close>

definition failing_network :: network where
  "failing_network =
     \<lparr>answer = (\<lambda>k url. if k = 3 then Inl AxiosError else mock_answer k url),
      arrival = [0, 3, 1, 5, 2, 4]\<rparr>"

text \<open>A service that prices everything at 0.\<close>

definition zero_network :: network where
  "zero_network =
     \<lparr>answer = (\<lambda>k url. Inr (Response (JObj [(''predicted_price'', JNum 0)]))),
      arrival = [0, 1, 2, 3, 4, 5]\<rparr>"

text \<open>The spec's \<^verbatim>\<open>submit(rawSquareFootage, rawBedrooms)\<close>: the two fields are typed, then
  the form is submitted.\<close>

definition submit :: "network \<Rightarrow> string \<Rightarrow> string \<Rightarrow> app_state \<Rightarrow> app_state option" where
  "submit net rawSquareFootage rawBedrooms st =
     handleSubmit net (setBedrooms rawBedrooms (setSquareFootage rawSquareFootage st))"

text \<open>The state in which the two fields have been typed and nothing was submitted yet.\<close>

definition form :: "string \<Rightarrow> string \<Rightarrow> app_state" where
  "form rawSquareFootage rawBedrooms =
     setBedrooms rawBedrooms (setSquareFootage rawSquareFootage initial_state)"

text \<open>A service that rejects every request.\<close>

definition offline_network :: network where
  "offline_network = \<lparr>answer = (\<lambda>k url. Inl AxiosError), arrival = [0]\<rparr>"

text \<open>A service that never answers.\<close>

definition silent_network :: network where
  "silent_network = \<lparr>answer = mock_answer, arrival = []\<rparr>"

section \<open>Invariants of the join\<close>

text \<open>
  What holds of the join's state while every element fulfils with the value \<open>vs ! i\<close>:
  the settled elements are distinct indices, each has its value at its own index, the
  count is the number of elements still missing, and the join resolves exactly when the
  count reaches 0.
\<close>

definition all_ok :: "jsval list \<Rightarrow> all_state \<Rightarrow> bool" where
  "all_ok vs s \<longleftrightarrow>
     distinct (alreadyCalled s) \<and> set (alreadyCalled s) \<subseteq> {..<length vs}
     \<and> length (vals s) = length vs
     \<and> (\<forall>j \<in> set (alreadyCalled s). vals s ! j = vs ! j)
     \<and> remainingElementsCount s + length (alreadyCalled s) = length vs
     \<and> settled s = (if remainingElementsCount s = 0 then Some (Inr (vals s)) else None)"

text \<open>
  What holds while element \<open>j\<close> is one that rejects: the count never reaches 0, so the
  join is never resolved, and it is settled once \<open>j\<close> has settled.
\<close>

definition all_failing :: "(js_error + jsval) list \<Rightarrow> nat \<Rightarrow> all_state \<Rightarrow> bool" where
  "all_failing ps j s \<longleftrightarrow>
     distinct (alreadyCalled s) \<and> set (alreadyCalled s) \<subseteq> {..<length ps}
     \<and> remainingElementsCount s
         + length (filter (\<lambda>i. \<not> isl (ps ! i)) (alreadyCalled s)) = length ps
     \<and> (\<forall>vs. settled s \<noteq> Some (Inr vs))
     \<and> (j \<in> set (alreadyCalled s) \<longrightarrow> settled s \<noteq> None)"

section \<open>The join\<close>

lemma settle_element_called:
  "set (alreadyCalled (settle_element ps i s)) =
     set (alreadyCalled s) \<union> (if i < length ps then {i} else {})"
  by (auto simp: settle_element_def Let_def split: sum.splits)

lemma fold_settle_called:
  "set (alreadyCalled (fold (settle_element ps) order s)) =
     set (alreadyCalled s) \<union> (set order \<inter> {..<length ps})"
  by (induction order arbitrary: s) (auto simp: settle_element_called split: if_splits)

lemma distinct_bounded_length:
  assumes "distinct xs" "set xs \<subseteq> {..<n} - A" "finite A" "A \<subseteq> {..<n}"
  shows "length xs + card A \<le> n"
proof -
  have "card (set xs) \<le> card ({..<n} - A)"
    using assms(2) by (intro card_mono) auto
  also have "\<dots> = n - card A"
    using assms(3,4) by (simp add: card_Diff_subset)
  finally have "length xs \<le> n - card A"
    using assms(1) by (simp add: distinct_card)
  moreover have "card A \<le> n"
    using assms(4) card_mono[of "{..<n}" A] by simp
  ultimately show ?thesis by simp
qed

lemma all_ok_init: "all_ok vs (all_init (map Inr vs))"
  by (auto simp: all_ok_def all_init_def)

lemma all_ok_step:
  assumes "all_ok vs s"
  shows "all_ok vs (settle_element (map Inr vs) i s)"
proof (cases "length vs \<le> i \<or> i \<in> set (alreadyCalled s)")
  case True
  then show ?thesis using assms by (simp add: settle_element_def)
next
  case False
  then have i: "i < length vs" "i \<notin> set (alreadyCalled s)" by auto
  have "length (alreadyCalled s) + card {i} \<le> length vs"
    using assms i by (intro distinct_bounded_length) (auto simp: all_ok_def)
  then have rem: "1 \<le> remainingElementsCount s"
    using assms by (simp add: all_ok_def)
  have upd: "\<And>j. j \<in> set (alreadyCalled s) \<Longrightarrow> (vals s)[i := vs ! i] ! j = vs ! j"
    using assms i by (auto simp: all_ok_def nth_list_update)
  show ?thesis
    using assms i rem upd
    by (auto simp: all_ok_def settle_element_def Let_def)
qed

lemma all_ok_fold:
  "all_ok vs s \<Longrightarrow> all_ok vs (fold (settle_element (map Inr vs)) order s)"
  by (induction order arbitrary: s) (auto simp: all_ok_step)

lemma all_ok_complete:
  assumes "all_ok vs s" "{..<length vs} \<subseteq> set (alreadyCalled s)"
  shows "settled s = Some (Inr vs)"
proof -
  have eq: "set (alreadyCalled s) = {..<length vs}"
    using assms by (auto simp: all_ok_def)
  have "length (alreadyCalled s) = length vs"
    using assms(1) eq distinct_card[of "alreadyCalled s"] by (simp add: all_ok_def)
  then have r0: "remainingElementsCount s = 0"
    using assms(1) by (simp add: all_ok_def)
  have "vals s = vs"
    using assms(1) eq by (intro nth_equalityI) (auto simp: all_ok_def)
  then show ?thesis
    using assms(1) r0 by (simp add: all_ok_def)
qed

text \<open>Every element fulfilled and arrived: the join resolves with the values by index.\<close>

lemma promise_all_fulfilled:
  assumes "{..<length vs} \<subseteq> set order"
  shows "promise_all (map Inr vs) order = Some (Inr vs)"
proof -
  let ?s = "fold (settle_element (map Inr vs)) order (all_init (map Inr vs))"
  have "all_ok vs ?s"
    by (rule all_ok_fold) (rule all_ok_init)
  moreover have "{..<length vs} \<subseteq> set (alreadyCalled ?s)"
    using assms by (auto simp: fold_settle_called)
  ultimately show ?thesis
    by (simp add: promise_all_def all_ok_complete)
qed

lemma all_failing_init: "j < length ps \<Longrightarrow> all_failing ps j (all_init ps)"
  by (auto simp: all_failing_def all_init_def)

lemma all_failing_step:
  assumes "all_failing ps j s" "j < length ps" "isl (ps ! j)"
  shows "all_failing ps j (settle_element ps i s)"
proof (cases "length ps \<le> i \<or> i \<in> set (alreadyCalled s)")
  case True
  then show ?thesis using assms by (simp add: settle_element_def)
next
  case False
  then have i: "i < length ps" "i \<notin> set (alreadyCalled s)" by auto
  show ?thesis
  proof (cases "ps ! i")
    case (Inl reason)
    then show ?thesis
      using assms i by (auto simp: all_failing_def settle_element_def split: option.splits)
  next
    case (Inr v)
    then have ij: "i \<noteq> j" using assms(3) by auto
    let ?F = "filter (\<lambda>i. \<not> isl (ps ! i)) (alreadyCalled s)"
    have "length ?F + card {i, j} \<le> length ps"
      using assms i by (intro distinct_bounded_length) (auto simp: all_failing_def)
    then have "length ?F + 2 \<le> length ps"
      using ij by simp
    then have rem: "2 \<le> remainingElementsCount s"
      using assms(1) by (simp add: all_failing_def)
    show ?thesis
      using assms i Inr ij rem
      by (auto simp: all_failing_def settle_element_def Let_def split: option.splits)
  qed
qed

lemma all_failing_fold:
  "all_failing ps j s \<Longrightarrow> j < length ps \<Longrightarrow> isl (ps ! j) \<Longrightarrow>
   all_failing ps j (fold (settle_element ps) order s)"
  by (induction order arbitrary: s) (auto simp: all_failing_step)

text \<open>One element rejected and arrived: the join rejects, whatever the others do.\<close>

lemma promise_all_rejected:
  assumes "j < length ps" "isl (ps ! j)" "j \<in> set order"
  shows "\<exists>reason. promise_all ps order = Some (Inl reason)"
proof -
  let ?s = "fold (settle_element ps) order (all_init ps)"
  have inv: "all_failing ps j ?s"
    using assms(1,2) by (intro all_failing_fold all_failing_init)
  have "j \<in> set (alreadyCalled ?s)"
    using assms(1,3) by (simp add: fold_settle_called)
  then have "settled ?s \<noteq> None" "\<forall>vs. settled ?s \<noteq> Some (Inr vs)"
    using inv by (auto simp: all_failing_def)
  then show ?thesis
    by (cases "settled ?s") (auto simp: promise_all_def intro: sum.exhaust)
qed

text \<open>Every element arrived: the join settles.\<close>

lemma promise_all_settles:
  assumes "{..<length ps} \<subseteq> set order"
  shows "promise_all ps order \<noteq> None"
proof (cases "\<exists>j < length ps. isl (ps ! j)")
  case True
  then obtain j where "j < length ps" "isl (ps ! j)" by auto
  moreover from this assms have "j \<in> set order" by auto
  ultimately show ?thesis
    using promise_all_rejected[of j ps order] by auto
next
  case False
  then have "ps = map Inr (map projr ps)"
    by (intro nth_equalityI) auto
  then obtain vs where vs: "ps = map Inr vs" ..
  with assms have "{..<length vs} \<subseteq> set order" by simp
  then show ?thesis
    by (simp add: vs promise_all_fulfilled)
qed

text \<open>A join that resolves had every element fulfilled, and holds their values by index.\<close>

lemma promise_all_resolved:
  assumes "promise_all ps order = Some (Inr vs)"
  shows "ps = map Inr vs"
proof -
  let ?s = "fold (settle_element ps) order (all_init ps)"
  have res: "settled ?s = Some (Inr vs)"
    using assms by (simp add: promise_all_def)
  have nofail: "\<not> isl (ps ! j)" if "j < length ps" for j
  proof
    assume "isl (ps ! j)"
    then have "all_failing ps j ?s"
      using that by (intro all_failing_fold all_failing_init)
    then show False
      using res by (simp add: all_failing_def)
  qed
  define ws where "ws = map projr ps"
  have ps: "ps = map Inr ws"
    unfolding ws_def using nofail by (intro nth_equalityI) auto
  have ok: "all_ok ws ?s"
    using all_ok_fold[OF all_ok_init, of ws order] ps by simp
  then have r0: "remainingElementsCount ?s = 0"
    using res by (auto simp: all_ok_def split: if_splits)
  then have len: "length (alreadyCalled ?s) = length ws"
    using ok by (simp add: all_ok_def)
  have "set (alreadyCalled ?s) = {..<length ws}"
  proof (rule card_subset_eq)
    show "finite {..<length ws}" by simp
    show "set (alreadyCalled ?s) \<subseteq> {..<length ws}"
      using ok by (simp add: all_ok_def)
    show "card (set (alreadyCalled ?s)) = card {..<length ws}"
      using ok len by (simp add: all_ok_def distinct_card)
  qed
  then have "settled ?s = Some (Inr ws)"
    using ok by (intro all_ok_complete) simp_all
  then show ?thesis
    using res ps by simp
qed

section \<open>The sweep and the effects of a call\<close>

lemma string_of_squareFootages:
  "map string_of_nat squareFootages = [''1000'', ''1500'', ''2000'', ''2500'', ''3000'']"
  by code_simp

lemma sweep_urls_eq:
  "sweep_urls st =
     [predict_url ''1000'' (bedrooms st), predict_url ''1500'' (bedrooms st),
      predict_url ''2000'' (bedrooms st), predict_url ''2500'' (bedrooms st),
      predict_url ''3000'' (bedrooms st)]"
proof -
  have "sweep_urls st = map (\<lambda>sf. predict_url sf (bedrooms st)) (map string_of_nat squareFootages)"
    by (simp add: sweep_urls_def)
  then show ?thesis
    by (simp only: string_of_squareFootages list.map)
qed

lemma length_sweep_urls: "length (sweep_urls st) = 5"
  by (simp add: sweep_urls_eq)

lemma length_sweep_promises: "length (sweep_promises net st) = 5"
  by (simp add: sweep_promises_def length_sweep_urls)

lemma nth_sweep_promises:
  "i < 5 \<Longrightarrow>
   sweep_promises net st ! i = then_predicted_price (answer net (Suc i) (sweep_urls st ! i))"
  by (simp add: sweep_promises_def length_sweep_urls nth_enumerate_eq)

lemma sweep_order_member: "Suc i \<in> set (arrival net) \<Longrightarrow> i \<in> set (sweep_order net)"
  by (force simp: sweep_order_def)

lemma run_Nil: "run [] st = st"
  by (simp add: run_def)

lemma run_Cons: "run (e # evs) st = run evs (apply_event e st)"
  by (simp add: run_def)

lemma run_append: "run (xs @ ys) st = run ys (run xs st)"
  by (simp add: run_def)

lemma run_before_await:
  "run (before_await st) st = st\<lparr>predictedPrice := JNull, error := '''', loading := True\<rparr>"
  by (simp add: run_def before_await_def)

lemma run_catch_finally:
  "run (catch_finally err) s =
     s\<lparr>error := ''Error predicting price. Please try again.'', loading := False\<rparr>"
  by (simp add: run_def catch_finally_def)

lemma run_requests: "run (map AxiosGet urls) s = s"
  by (induction urls) (simp_all add: run_def)

lemma requests_append: "requests (xs @ ys) = requests xs @ requests ys"
  by (induction xs rule: requests.induct) simp_all

lemma requests_gets: "requests (map AxiosGet urls) = urls"
  by (induction urls) simp_all

lemma requests_before_await:
  "requests (before_await st) = [predict_url (squareFootage st) (bedrooms st)]"
  by (simp add: before_await_def)

lemma requests_catch_finally: "requests (catch_finally err) = []"
  by (simp add: catch_finally_def)

text \<open>The four ways a call can go.\<close>

lemma events_primary_pending:
  "0 \<notin> set (arrival net) \<Longrightarrow> handleSubmit_events net st = (before_await st, False)"
  by (simp add: handleSubmit_events_def)

lemma events_primary_failed:
  assumes "0 \<in> set (arrival net)"
    and "then_predicted_price (answer net 0 (predict_url (squareFootage st) (bedrooms st))) = Inl err"
  shows "handleSubmit_events net st = (before_await st @ catch_finally err, True)"
  using assms
  by (auto simp: handleSubmit_events_def then_predicted_price_def split: sum.splits)

lemma events_sweep:
  assumes "0 \<in> set (arrival net)"
    and "then_predicted_price (answer net 0 (predict_url (squareFootage st) (bedrooms st))) = Inr price"
  shows "handleSubmit_events net st =
     (case promise_all (sweep_promises net st) (sweep_order net) of
        None \<Rightarrow>
          (before_await st @ [SetPredictedPrice price] @ map AxiosGet (sweep_urls st), False)
      | Some (Inl err) \<Rightarrow>
          (before_await st @ [SetPredictedPrice price] @ map AxiosGet (sweep_urls st)
           @ catch_finally err, True)
      | Some (Inr predictions) \<Rightarrow>
          (before_await st @ [SetPredictedPrice price] @ map AxiosGet (sweep_urls st)
           @ [SetChartData (newChartData (squareFootage st) predictions price),
              SetLoading False], True))"
  using assms
  by (auto simp: handleSubmit_events_def then_predicted_price_def Let_def split: sum.splits option.splits)

lemma handleSubmit_primary_failed:
  assumes "0 \<in> set (arrival net)"
    and "then_predicted_price (answer net 0 (predict_url (squareFootage st) (bedrooms st))) = Inl err"
  shows "handleSubmit net st =
     Some (st\<lparr>predictedPrice := JNull, error := ''Error predicting price. Please try again.'',
              loading := False\<rparr>)"
  by (simp add: handleSubmit_def events_primary_failed[OF assms] run_append run_before_await
      run_catch_finally)

lemma handleSubmit_sweep_failed:
  assumes "0 \<in> set (arrival net)"
    and "then_predicted_price (answer net 0 (predict_url (squareFootage st) (bedrooms st))) = Inr price"
    and "promise_all (sweep_promises net st) (sweep_order net) = Some (Inl err)"
  shows "handleSubmit net st =
     Some (st\<lparr>predictedPrice := price, error := ''Error predicting price. Please try again.'',
              loading := False\<rparr>)"
  by (simp add: handleSubmit_def events_sweep[OF assms(1,2)] assms(3) run_append run_before_await
      run_catch_finally run_requests run_Cons)

lemma handleSubmit_succeeded:
  assumes "0 \<in> set (arrival net)"
    and "then_predicted_price (answer net 0 (predict_url (squareFootage st) (bedrooms st))) = Inr price"
    and "promise_all (sweep_promises net st) (sweep_order net) = Some (Inr predictions)"
  shows "handleSubmit net st =
     Some (st\<lparr>predictedPrice := price, error := '''',
              chartData := Some (newChartData (squareFootage st) predictions price),
              loading := False\<rparr>)"
  by (simp add: handleSubmit_def events_sweep[OF assms(1,2)] assms(3) run_append run_before_await
      run_requests run_Cons run_Nil)

section \<open>Digits\<close>

lemma is_digit_10_iff: "is_digit 10 c \<longleftrightarrow> 48 \<le> (of_char c :: nat) \<and> (of_char c :: nat) \<le> 57"
  by (auto simp: is_digit_def digit_of_def Let_def)

lemma digit_not_whitespace: "is_digit 10 c \<Longrightarrow> \<not> is_whitespace c"
  by (auto simp: is_digit_10_iff is_whitespace_def)

lemma digit_not_sign: "is_digit 10 c \<Longrightarrow> c \<noteq> CHR ''+'' \<and> c \<noteq> CHR ''-''"
  by (auto simp: is_digit_10_iff)

lemma digit_not_x: "is_digit 10 c \<Longrightarrow> c \<noteq> CHR ''x'' \<and> c \<noteq> CHR ''X''"
  by (auto simp: is_digit_10_iff)

lemma dot_not_digit: "\<not> is_digit 10 CHR ''.''"
  by (simp add: is_digit_10_iff)

lemma digit_of_10_less: "digit_of 10 c = Some v \<Longrightarrow> v < 10"
  by (auto simp: digit_of_def Let_def split: if_splits option.splits)

lemma digits_value_snoc:
  "digits_value r (ds @ [c]) =
     digits_value r ds * r + (case digit_of r c of None \<Rightarrow> 0 | Some v \<Rightarrow> v)"
  by (simp add: digits_value_def)

lemma digits_value_bound:
  "list_all (is_digit 10) ds \<Longrightarrow> digits_value 10 ds < 10 ^ length ds"
proof (induction ds rule: rev_induct)
  case Nil
  then show ?case by (simp add: digits_value_def)
next
  case (snoc c ds)
  then obtain v where v: "digit_of 10 c = Some v"
    by (auto simp: is_digit_def)
  then have "v < 10" by (rule digit_of_10_less)
  moreover have "digits_value 10 ds < 10 ^ length ds"
    using snoc by simp
  ultimately show ?case
    by (simp add: digits_value_snoc v)
qed

lemma takeWhile_digits:
  assumes "list_all (is_digit 10) ip" "rest = [] \<or> \<not> is_digit 10 (hd rest)"
  shows "takeWhile (is_digit 10) (ip @ rest) = ip" "dropWhile (is_digit 10) (ip @ rest) = rest"
  using assms by (induction ip) (auto simp: neq_Nil_conv takeWhile_eq_Nil_iff dropWhile_eq_self_iff)

lemma nearest_double_small: "n < 2 ^ 53 \<Longrightarrow> nearest_double n = n"
  by (simp add: nearest_double_def mantissa_shift.simps)

lemma js_number_small:
  assumes "n < 2 ^ 53"
  shows "js_number negative n = (if negative then JNum (- of_nat n) else JNum (of_nat n))"
proof -
  have "(2::nat) ^ 53 \<le> 2 ^ 1024"
    by (rule power_increasing) simp_all
  then have "\<not> 2 ^ 1024 \<le> n"
    using assms by linarith
  then show ?thesis
    using assms by (simp add: js_number_def nearest_double_small)
qed

lemma js_number_integer:
  "js_number negative n = JInfinity \<or> js_number negative n = JNegInfinity
     \<or> (\<exists>k::int. js_number negative n = JNum (of_int k))"
proof -
  have "\<And>m::nat. \<exists>k::int. (of_nat m :: rat) = of_int k"
    by (metis of_int_of_nat_eq)
  moreover have "\<And>m::nat. \<exists>k::int. - (of_nat m :: rat) = of_int k"
    by (metis of_int_of_nat_eq of_int_minus)
  ultimately show ?thesis
    by (simp add: js_number_def Let_def)
qed

text \<open>The first integer that is not a double: the tie goes to the even mantissa.\<close>

lemma nearest_double_rounds: "nearest_double 9007199254740993 = 9007199254740992"
  by (simp add: nearest_double_def mantissa_shift.simps Let_def)

text \<open>
  \<open>parseInt\<close> on an optional sign, digits and then nothing or a point: the digits are
  read in radix 10 and whatever follows them is dropped.
\<close>

lemma parseInt_unsigned:
  assumes "ip \<noteq> []" "list_all (is_digit 10) ip" "rest = [] \<or> hd rest = CHR ''.''"
  shows "take 2 (ip @ rest) \<noteq> ''0x''" "take 2 (ip @ rest) \<noteq> ''0X''"
    "takeWhile (is_digit 10) (ip @ rest) = ip"
proof -
  obtain c cs where ip: "ip = c # cs" using assms(1) by (cases ip) auto
  have "hd (cs @ rest) \<noteq> CHR ''x'' \<and> hd (cs @ rest) \<noteq> CHR ''X'' \<or> cs @ rest = []"
  proof (cases cs)
    case Nil
    then show ?thesis using assms(3) by auto
  next
    case (Cons d ds)
    then have "is_digit 10 d" using assms(2) ip by simp
    then show ?thesis using Cons digit_not_x by simp
  qed
  moreover have "take 2 (ip @ rest) = c # take 1 (cs @ rest)"
    by (simp add: ip numeral_2_eq_2)
  ultimately show "take 2 (ip @ rest) \<noteq> ''0x''" "take 2 (ip @ rest) \<noteq> ''0X''"
    by (cases "cs @ rest"; simp)+
  have "rest = [] \<or> \<not> is_digit 10 (hd rest)"
    using assms(3) dot_not_digit by auto
  with assms(2) show "takeWhile (is_digit 10) (ip @ rest) = ip"
    by (rule takeWhile_digits)
qed

lemma parseInt_digits:
  assumes "sg = [] \<or> sg = ''+'' \<or> sg = ''-''"
    and "ip \<noteq> []" "list_all (is_digit 10) ip" "rest = [] \<or> hd rest = CHR ''.''"
  shows "parseInt (sg @ ip @ rest) = js_number (sg = ''-'') (digits_value 10 ip)"
proof -
  obtain c cs where ip: "ip = c # cs" using assms(2) by (cases ip) auto
  have c: "is_digit 10 c" using assms(3) ip by simp
  note core = parseInt_unsigned[OF assms(2,3,4)]
  have hex: "(take 2 (ip @ rest) = ''0x'' \<or> take 2 (ip @ rest) = ''0X'') = False"
    using core(1,2) by simp
  have ws: "dropWhile is_whitespace (sg @ ip @ rest) = sg @ ip @ rest"
  proof -
    have "\<not> is_whitespace c"
      using c by (rule digit_not_whitespace)
    moreover have "\<not> is_whitespace CHR ''+''" "\<not> is_whitespace CHR ''-''"
      by (simp_all add: is_whitespace_def)
    ultimately show ?thesis
      using assms(1) by (auto simp: ip)
  qed
  have s1: "(case sg @ ip @ rest of [] \<Rightarrow> [] | c # cs \<Rightarrow>
              if c = CHR ''+'' \<or> c = CHR ''-'' then cs else sg @ ip @ rest) = ip @ rest"
    using assms(1) digit_not_sign[OF c] by (auto simp: ip)
  have neg: "(case sg @ ip @ rest of [] \<Rightarrow> False | c # cs \<Rightarrow> c = CHR ''-'') = (sg = ''-'')"
    using assms(1) digit_not_sign[OF c] by (auto simp: ip)
  show ?thesis
    unfolding parseInt_def ws Let_def s1 neg hex
    using core(3) assms(2) by simp
qed

lemma decimal_reading_fraction:
  assumes "sg = [] \<or> sg = ''+'' \<or> sg = ''-''"
    and "ip \<noteq> []" "list_all (is_digit 10) ip" "list_all (is_digit 10) fp"
  shows "decimal_reading (sg @ ip @ CHR ''.'' # fp) =
     Some (if sg = ''-''
           then - (of_nat (digits_value 10 ip) + of_nat (digits_value 10 fp) / 10 ^ length fp)
           else of_nat (digits_value 10 ip) + of_nat (digits_value 10 fp) / 10 ^ length fp)"
proof -
  let ?s = "sg @ ip @ CHR ''.'' # fp"
  obtain c cs where ip: "ip = c # cs" using assms(2) by (cases ip) auto
  have c: "is_digit 10 c" using assms(3) ip by simp
  have tw: "takeWhile (is_digit 10) (ip @ CHR ''.'' # fp) = ip"
    "dropWhile (is_digit 10) (ip @ CHR ''.'' # fp) = CHR ''.'' # fp"
    using assms(3) dot_not_digit by (simp_all add: takeWhile_digits)
  have fp: "takeWhile (is_digit 10) fp = fp" "dropWhile (is_digit 10) fp = []"
    using assms(4) takeWhile_digits[of fp "[]"] by simp_all
  have s1: "(case ?s of [] \<Rightarrow> [] | c # cs \<Rightarrow>
              if c = CHR ''+'' \<or> c = CHR ''-'' then cs else ?s) = ip @ CHR ''.'' # fp"
    using assms(1) digit_not_sign[OF c] by (auto simp: ip)
  have neg: "(case ?s of [] \<Rightarrow> False | c # cs \<Rightarrow> c = CHR ''-'') = (sg = ''-'')"
    using assms(1) digit_not_sign[OF c] by (auto simp: ip)
  show ?thesis
    unfolding decimal_reading_def s1 neg Let_def tw
    using assms(2) by (simp add: fp)
qed

text \<open>A run of digits past \<open>2 ^ 53\<close> is rounded, as the Number that the code gets is.\<close>

lemma parseInt_rounds: "parseInt ''9007199254740993'' = JNum 9007199254740992"
proof -
  have "parseInt ([] @ ''9007199254740993'' @ []) =
          js_number ([] = ''-'') (digits_value 10 ''9007199254740993'')"
    by (rule parseInt_digits) (simp_all add: is_digit_def digit_of_def)
  moreover have "digits_value 10 ''9007199254740993'' = 9007199254740993"
    by (simp add: digits_value_def digit_of_def)
  ultimately show ?thesis
    by (simp add: js_number_def nearest_double_rounds)
qed

lemma parseInt_integer:
  "parseInt s = JNaN \<or> parseInt s = JInfinity \<or> parseInt s = JNegInfinity
     \<or> (\<exists>k::int. parseInt s = JNum (of_int k))"
  using js_number_integer by (auto simp: parseInt_def Let_def)

lemma parseInt_not_fraction:
  assumes "r \<notin> \<int>"
  shows "parseInt s \<noteq> JNum r"
  using parseInt_integer[of s] assms by auto

section \<open>The sweep through the join\<close>

lemma sweep_rejected:
  assumes "j < 5"
    and "then_predicted_price (answer net (Suc j) (sweep_urls st ! j)) = Inl reason"
    and "Suc j \<in> set (arrival net)"
  shows "\<exists>err. promise_all (sweep_promises net st) (sweep_order net) = Some (Inl err)"
proof (rule promise_all_rejected)
  show "j < length (sweep_promises net st)"
    using assms(1) by (simp add: length_sweep_promises)
  show "isl (sweep_promises net st ! j)"
    using assms(1,2) by (simp add: nth_sweep_promises)
  show "j \<in> set (sweep_order net)"
    using assms(3) by (rule sweep_order_member)
qed

lemma sweep_fulfilled:
  assumes "length prices = 5"
    and "\<forall>i<5. then_predicted_price (answer net (Suc i) (sweep_urls st ! i)) = Inr (prices ! i)"
    and "\<forall>i<5. Suc i \<in> set (arrival net)"
  shows "promise_all (sweep_promises net st) (sweep_order net) = Some (Inr prices)"
proof -
  have "sweep_promises net st = map Inr prices"
    using assms(1,2) by (intro nth_equalityI) (auto simp: length_sweep_promises nth_sweep_promises)
  moreover have "{..<length prices} \<subseteq> set (sweep_order net)"
    using assms(1,3) by (auto intro: sweep_order_member)
  ultimately show ?thesis
    by (simp add: promise_all_fulfilled)
qed

lemma sweep_settles:
  assumes "\<forall>i<5. Suc i \<in> set (arrival net)"
  shows "promise_all (sweep_promises net st) (sweep_order net) \<noteq> None"
proof (rule promise_all_settles)
  show "{..<length (sweep_promises net st)} \<subseteq> set (sweep_order net)"
    using assms by (auto simp: length_sweep_promises intro: sweep_order_member)
qed

section \<open>The mock service on concrete requests\<close>

lemma mock_answer_url:
  assumes "CHR ''/'' \<notin> set sf" "decimal_reading sf = Some x" "decimal_reading bd = Some y"
  shows "mock_answer k (predict_url sf bd) =
           Inr (Response (JObj [(''predicted_price'', JNum (200 * x + 10000 * y))]))"
proof -
  have "drop (length ''http://localhost:8000/predict/'') (predict_url sf bd) = sf @ CHR ''/'' # bd"
    by (simp add: predict_url_def)
  moreover have "takeWhile (\<lambda>c. c \<noteq> CHR ''/'') (sf @ CHR ''/'' # bd) = sf"
    using assms(1) by (induction sf) auto
  moreover have "dropWhile (\<lambda>c. c \<noteq> CHR ''/'') (sf @ CHR ''/'' # bd) = CHR ''/'' # bd"
    using assms(1) by (induction sf) auto
  ultimately show ?thesis
    unfolding mock_answer_def Let_def by (simp add: assms(2,3))
qed

lemma reading_1200: "decimal_reading ''1200'' = Some 1200"
  by (simp add: decimal_reading_def is_digit_def digit_of_def digits_value_def Let_def)

lemma reading_3: "decimal_reading ''3'' = Some 3"
  by (simp add: decimal_reading_def is_digit_def digit_of_def digits_value_def Let_def)

lemma reading_sweep:
  "decimal_reading ''1000'' = Some 1000" "decimal_reading ''1500'' = Some 1500"
  "decimal_reading ''2000'' = Some 2000" "decimal_reading ''2500'' = Some 2500"
  "decimal_reading ''3000'' = Some 3000"
  by (simp_all add: decimal_reading_def is_digit_def digit_of_def digits_value_def Let_def)

lemma reading_1200_5: "decimal_reading ''1200.5'' = Some (2401 / 2)"
  by (simp add: decimal_reading_def is_digit_def digit_of_def digits_value_def Let_def)

lemma js_number_1200: "js_number False 1200 = JNum 1200"
  using js_number_small[of 1200 False] by simp

lemma parseInt_1200: "parseInt ''1200'' = JNum 1200"
  by (simp add: parseInt_def is_whitespace_def is_digit_def digit_of_def digits_value_def Let_def
      js_number_1200)

lemma parseInt_1200_5: "parseInt ''1200.5'' = JNum 1200"
  by (simp add: parseInt_def is_whitespace_def is_digit_def digit_of_def digits_value_def Let_def
      js_number_1200)

lemma form_fields:
  "squareFootage (form sf bd) = sf" "bedrooms (form sf bd) = bd"
  "predictedPrice (form sf bd) = JNull" "error (form sf bd) = ''''"
  "chartData (form sf bd) = None" "loading (form sf bd) = False"
  by (simp_all add: form_def setBedrooms_def setSquareFootage_def initial_state_def)

lemma form_record:
  "form sf bd =
     \<lparr>squareFootage = sf, bedrooms = bd, predictedPrice = JNull, error = '''',
      chartData = None, loading = False\<rparr>"
  by (simp add: form_def setBedrooms_def setSquareFootage_def initial_state_def)

lemma less_5_cases: "i < 5 \<longleftrightarrow> i = 0 \<or> i = 1 \<or> i = 2 \<or> i = 3 \<or> i = (4::nat)"
  by arith

lemma less_6_cases: "k < 6 \<longleftrightarrow> k = 0 \<or> k = 1 \<or> k = 2 \<or> k = 3 \<or> k = 4 \<or> k = (5::nat)"
  by arith

lemma mock_sweep_prices:
  assumes "bedrooms st = ''3''"
  shows "\<forall>i<5. then_predicted_price (mock_answer (Suc i) (sweep_urls st ! i)) =
           Inr ([JNum 230000, JNum 330000, JNum 430000, JNum 530000, JNum 630000] ! i)"
  by (auto simp: less_5_cases sweep_urls_eq assms mock_answer_url reading_sweep reading_3
      then_predicted_price_def)

lemma mock_arrival: "\<forall>k<6. k \<in> set (arrival mock_network)"
  by (auto simp: less_6_cases mock_network_def)

lemma mock_primary:
  assumes "CHR ''/'' \<notin> set sf" "decimal_reading sf = Some x"
  shows "then_predicted_price (answer mock_network 0 (predict_url sf ''3'')) =
           Inr (JNum (200 * x + 30000))"
  using assms by (simp add: mock_network_def mock_answer_url reading_3 then_predicted_price_def)

lemma mock_network_run:
  assumes "CHR ''/'' \<notin> set sf" "decimal_reading sf = Some x"
  shows "handleSubmit mock_network (form sf ''3'') =
     Some \<lparr>squareFootage = sf, bedrooms = ''3'', predictedPrice = JNum (200 * x + 30000),
           error = '''',
           chartData = Some (newChartData sf
             [JNum 230000, JNum 330000, JNum 430000, JNum 530000, JNum 630000]
             (JNum (200 * x + 30000))),
           loading = False\<rparr>"
proof -
  let ?prices = "[JNum 230000, JNum 330000, JNum 430000, JNum 530000, JNum 630000]"
  have a: "0 \<in> set (arrival mock_network)"
    by (simp add: mock_network_def)
  have b: "\<forall>i<5. Suc i \<in> set (arrival mock_network)"
    using mock_arrival by simp
  have p: "then_predicted_price (answer mock_network 0
             (predict_url (squareFootage (form sf ''3'')) (bedrooms (form sf ''3'')))) =
           Inr (JNum (200 * x + 30000))"
    using mock_primary[OF assms] by (simp add: form_fields)
  have s: "\<forall>i<5. then_predicted_price (answer mock_network (Suc i) (sweep_urls (form sf ''3'') ! i)) =
             Inr (?prices ! i)"
    using mock_sweep_prices[of "form sf ''3''"] by (simp add: form_fields mock_network_def)
  have "promise_all (sweep_promises mock_network (form sf ''3'')) (sweep_order mock_network) =
          Some (Inr ?prices)"
    using s b by (intro sweep_fulfilled) simp_all
  from handleSubmit_succeeded[OF a p this] show ?thesis
    by (simp add: form_fields form_record)
qed


lemma failing_network_run:
  "handleSubmit failing_network (form ''1200'' ''3'') =
     Some \<lparr>squareFootage = ''1200'', bedrooms = ''3'', predictedPrice = JNum 270000,
           error = ''Error predicting price. Please try again.'',
           chartData = None, loading = False\<rparr>"
proof -
  let ?st = "form ''1200'' ''3''"
  have a: "0 \<in> set (arrival failing_network)"
    by (simp add: failing_network_def)
  have p: "then_predicted_price (answer failing_network 0
             (predict_url (squareFootage ?st) (bedrooms ?st))) = Inr (JNum 270000)"
    by (simp add: failing_network_def form_fields mock_answer_url reading_1200 reading_3
        then_predicted_price_def)
  have "then_predicted_price (answer failing_network (Suc 2) (sweep_urls ?st ! 2)) = Inl AxiosError"
    by (simp add: failing_network_def then_predicted_price_def)
  moreover have "Suc 2 \<in> set (arrival failing_network)"
    by (simp add: failing_network_def)
  ultimately obtain err where
    "promise_all (sweep_promises failing_network ?st) (sweep_order failing_network) = Some (Inl err)"
    using sweep_rejected[of 2 failing_network ?st AxiosError] by auto
  from handleSubmit_sweep_failed[OF a p this] show ?thesis
    by (simp add: form_record)
qed

lemma zero_network_run:
  "handleSubmit zero_network (form ''1200'' ''3'') =
     Some \<lparr>squareFootage = ''1200'', bedrooms = ''3'', predictedPrice = JNum 0, error = '''',
           chartData = Some (newChartData ''1200'' [JNum 0, JNum 0, JNum 0, JNum 0, JNum 0] (JNum 0)),
           loading = False\<rparr>"
proof -
  let ?st = "form ''1200'' ''3''"
  have a: "0 \<in> set (arrival zero_network)"
    by (simp add: zero_network_def)
  have b: "\<forall>i<5. Suc i \<in> set (arrival zero_network)"
    by (auto simp: less_5_cases zero_network_def)
  have p: "then_predicted_price (answer zero_network 0
             (predict_url (squareFootage ?st) (bedrooms ?st))) = Inr (JNum 0)"
    by (simp add: zero_network_def then_predicted_price_def)
  have s: "\<forall>i<5. then_predicted_price (answer zero_network (Suc i) (sweep_urls ?st ! i)) =
             Inr ([JNum 0, JNum 0, JNum 0, JNum 0, JNum 0] ! i)"
    by (auto simp: less_5_cases zero_network_def then_predicted_price_def)
  have "promise_all (sweep_promises zero_network ?st) (sweep_order zero_network) =
          Some (Inr [JNum 0, JNum 0, JNum 0, JNum 0, JNum 0])"
    using s b by (intro sweep_fulfilled) simp_all
  from handleSubmit_succeeded[OF a p this] show ?thesis
    by (simp add: form_record)
qed

lemma submit_form: "submit net sf bd initial_state = handleSubmit net (form sf bd)"
  by (simp add: submit_def form_def)

lemma no_slash: "CHR ''/'' \<notin> set ''1200''" "CHR ''/'' \<notin> set ''1200.5''"
  by simp_all

lemma chart_points:
  "map points (datasets (newChartData sf prices price)) =
     [prices, [JObj [(''x'', parseInt sf), (''y'', price)]]]"
  by (simp add: newChartData_def)

lemma chart_labels:
  "labels (newChartData sf prices price) = [JNum 1000, JNum 1500, JNum 2000, JNum 2500, JNum 3000]"
  by (simp add: newChartData_def squareFootages_def)

lemma half_not_int: "(2401 / 2 :: rat) \<notin> \<int>"
proof
  assume "(2401 / 2 :: rat) \<in> \<int>"
  then obtain k :: int where "(2401 / 2 :: rat) = of_int k"
    by (auto elim: Ints_cases)
  then have "(of_int 2401 :: rat) = of_int (2 * k)"
    by simp
  then have "(2401 :: int) = 2 * k"
    by (simp only: of_int_eq_iff)
  then show False by presburger
qed

lemma mock_sweep_promises:
  "sweep_promises mock_network (form sf ''3'') =
     map Inr [JNum 230000, JNum 330000, JNum 430000, JNum 530000, JNum 630000]"
  by (simp add: sweep_promises_def sweep_urls_eq form_fields mock_network_def mock_answer_url
      reading_sweep reading_3 then_predicted_price_def)

lemma digits_1200: "list_all (is_digit 10) ''1200''" "list_all (is_digit 10) ''5''"
  by (simp_all add: is_digit_def digit_of_def)

lemma floor_digits_fraction:
  assumes "list_all (is_digit 10) fp"
  shows "\<lfloor>(of_nat n :: rat) + of_nat (digits_value 10 fp) / 10 ^ length fp\<rfloor> = int n"
proof -
  let ?f = "(of_nat (digits_value 10 fp) :: rat) / 10 ^ length fp"
  have "digits_value 10 fp < 10 ^ length fp"
    using assms by (rule digits_value_bound)
  then have "(of_nat (digits_value 10 fp) :: rat) < of_nat (10 ^ length fp)"
    by (simp only: of_nat_less_iff)
  then have "?f < 1" by simp
  moreover have "0 \<le> ?f" by simp
  ultimately have "\<lfloor>?f\<rfloor> = 0"
    by (simp add: floor_eq_iff)
  then show ?thesis
    by (simp add: floor_add_int add.commute)
qed

section \<open>Claims\<close>

subsection \<open>C1: a failed request of the sweep fails the whole submission\<close>




subsection \<open>C2: a failed primary request issues no sweep\<close>

text \<open>
  C2. Whenever the primary request is rejected, the only request the call issues is
  the primary one (no request of the sweep is issued), and the call ends with the
  message "Error predicting price. Please try again.", the price still cleared and
  the loading flag cleared.
\<close>

theorem primary_failure_issues_no_sweep:
  assumes "0 \<in> set (arrival net)"
    and "answer net 0 (predict_url (squareFootage st) (bedrooms st)) = Inl err"
  shows "requests (fst (handleSubmit_events net st)) = [predict_url (squareFootage st) (bedrooms st)]
         \<and> handleSubmit net st =
             Some (st\<lparr>predictedPrice := JNull,
                      error := ''Error predicting price. Please try again.'',
                      loading := False\<rparr>)"
proof -
  have p: "then_predicted_price (answer net 0 (predict_url (squareFootage st) (bedrooms st))) = Inl err"
    using assms(2) by (simp add: then_predicted_price_def)
  show ?thesis
    by (simp add: events_primary_failed[OF assms(1) p] handleSubmit_primary_failed[OF assms(1) p]
        requests_append requests_before_await requests_catch_finally)
qed

text \<open>The service that rejects everything, on the form filled with 1200 and 3.\<close>

theorem primary_failure_issues_no_sweep_witness:
  "0 \<in> set (arrival offline_network)
   \<and> answer offline_network 0 (predict_url ''1200'' ''3'') = Inl AxiosError
   \<and> requests (fst (handleSubmit_events offline_network (form ''1200'' ''3''))) =
       [''http://localhost:8000/predict/1200/3'']
   \<and> handleSubmit offline_network (form ''1200'' ''3'') =
       Some \<lparr>squareFootage = ''1200'', bedrooms = ''3'', predictedPrice = JNull,
             error = ''Error predicting price. Please try again.'',
             chartData = None, loading = False\<rparr>"
proof -
  let ?st = "form ''1200'' ''3''"
  have a: "0 \<in> set (arrival offline_network)"
    by (simp add: offline_network_def)
  have p: "answer offline_network 0 (predict_url (squareFootage ?st) (bedrooms ?st)) = Inl AxiosError"
    by (simp add: offline_network_def)
  from primary_failure_issues_no_sweep[OF a p] show ?thesis
    using a p by (simp add: form_fields form_record predict_url_def)
qed

subsection \<open>C3: the sweep is merged by request index\<close>

text \<open>
  C3. Whenever all six requests are fulfilled and answered, the chart's labels are
  1000, 1500, 2000, 2500, 3000 and the \<open>i\<close>-th value of the curve is the price answered
  to the \<open>i\<close>-th request of the sweep. The order in which the answers arrive does not
  matter: every other order of arrival leaves the same state.
\<close>

theorem sweep_merged_by_index:
  assumes "0 \<in> set (arrival net)"
    and "then_predicted_price (answer net 0 (predict_url (squareFootage st) (bedrooms st))) = Inr price"
    and "length prices = 5"
    and "\<forall>i<5. then_predicted_price (answer net (Suc i) (sweep_urls st ! i)) = Inr (prices ! i)"
    and "\<forall>i<5. Suc i \<in> set (arrival net)"
  shows "\<exists>st' c. handleSubmit net st = Some st' \<and> chartData st' = Some c
           \<and> labels c = [JNum 1000, JNum 1500, JNum 2000, JNum 2500, JNum 3000]
           \<and> points (hd (datasets c)) = prices
           \<and> (\<forall>order. (\<forall>k<6. k \<in> set order) \<longrightarrow>
                 handleSubmit (net\<lparr>arrival := order\<rparr>) st = Some st')"
proof -
  let ?st' = "st\<lparr>predictedPrice := price, error := '''',
              chartData := Some (newChartData (squareFootage st) prices price),
              loading := False\<rparr>"
  have here: "handleSubmit net st = Some ?st'"
    using assms by (intro handleSubmit_succeeded sweep_fulfilled)
  have there: "handleSubmit (net\<lparr>arrival := order\<rparr>) st = Some ?st'"
    if "\<forall>k<6. k \<in> set order" for order
  proof -
    let ?net = "net\<lparr>arrival := order\<rparr>"
    have a: "0 \<in> set (arrival ?net)" using that by simp
    have b: "\<forall>i<5. Suc i \<in> set (arrival ?net)" using that by simp
    have "promise_all (sweep_promises ?net st) (sweep_order ?net) = Some (Inr prices)"
      using assms(3,4) b by (intro sweep_fulfilled) simp_all
    moreover have "then_predicted_price (answer ?net 0 (predict_url (squareFootage st) (bedrooms st))) = Inr price"
      using assms(2) by simp
    ultimately show ?thesis
      using a by (intro handleSubmit_succeeded)
  qed
  have "points (hd (datasets (newChartData (squareFootage st) prices price))) = prices"
    by (simp add: newChartData_def)
  then show ?thesis
    using here there by (simp add: chart_labels)
qed

text \<open>
  The mock service, whose answers arrive in the order 0, 3, 1, 5, 2, 4, against the
  order 0, 1, 2, 3, 4, 5.
\<close>

theorem sweep_merged_by_index_witness:
  "arrival mock_network = [0, 3, 1, 5, 2, 4]
   \<and> then_predicted_price (answer mock_network 0 (predict_url ''1200'' ''3'')) = Inr (JNum 270000)
   \<and> sweep_promises mock_network (form ''1200'' ''3'') =
       map Inr [JNum 230000, JNum 330000, JNum 430000, JNum 530000, JNum 630000]
   \<and> (\<exists>st' c. handleSubmit mock_network (form ''1200'' ''3'') = Some st'
         \<and> chartData st' = Some c
         \<and> labels c = [JNum 1000, JNum 1500, JNum 2000, JNum 2500, JNum 3000]
         \<and> points (hd (datasets c)) =
             [JNum 230000, JNum 330000, JNum 430000, JNum 530000, JNum 630000]
         \<and> handleSubmit (mock_network\<lparr>arrival := [0, 1, 2, 3, 4, 5]\<rparr>) (form ''1200'' ''3'') =
             Some st')"
proof -
  let ?st = "form ''1200'' ''3''"
  let ?prices = "[JNum 230000, JNum 330000, JNum 430000, JNum 530000, JNum 630000]"
  have a: "0 \<in> set (arrival mock_network)"
    by (simp add: mock_network_def)
  have p0: "then_predicted_price (answer mock_network 0 (predict_url ''1200'' ''3'')) = Inr (JNum 270000)"
    using mock_primary[OF no_slash(1) reading_1200] by simp
  then have p: "then_predicted_price (answer mock_network 0
                  (predict_url (squareFootage ?st) (bedrooms ?st))) = Inr (JNum 270000)"
    by (simp add: form_fields)
  have len: "length ?prices = 5" by simp
  have s: "\<forall>i<5. then_predicted_price (answer mock_network (Suc i) (sweep_urls ?st ! i)) =
             Inr (?prices ! i)"
    using mock_sweep_prices[of ?st] by (simp add: form_fields mock_network_def)
  have b: "\<forall>i<5. Suc i \<in> set (arrival mock_network)"
    using mock_arrival by simp
  have o: "\<forall>k<6. k \<in> set [0, 1, 2, 3, 4, 5::nat]"
    by (auto simp: less_6_cases)
  have arr: "arrival mock_network = [0, 3, 1, 5, 2, 4]"
    by (simp add: mock_network_def)
  from sweep_merged_by_index[OF a p len s b] obtain st' c where
    r: "handleSubmit mock_network ?st = Some st'" "chartData st' = Some c"
      "labels c = [JNum 1000, JNum 1500, JNum 2000, JNum 2500, JNum 3000]"
      "points (hd (datasets c)) = ?prices"
    and every: "\<forall>order. (\<forall>k<6. k \<in> set order) \<longrightarrow>
                 handleSubmit (mock_network\<lparr>arrival := order\<rparr>) ?st = Some st'"
    by blast
  from every o have "handleSubmit (mock_network\<lparr>arrival := [0, 1, 2, 3, 4, 5]\<rparr>) ?st = Some st'"
    by blast
  with r arr p0 mock_sweep_promises[of "''1200''"] show ?thesis
    by blast
qed

subsection \<open>C4: the series of a fully successful submission\<close>

text \<open>
  C4. The claim puts the highlighted point at the submitted square footage. The code
  sends the raw text 1200.5 to the service, which prices it at 270100, and builds
  the chart with the five reference points; but it puts the one highlighted point at
  \<open>parseInt\<close> of the raw text, which is 1200, while the submitted square footage
  reads 2401/2. Submitting 1200.5 and 3 against the mock service:
\<close>

theorem fractional_input_highlight:
  "submit mock_network ''1200.5'' ''3'' initial_state =
     Some \<lparr>squareFootage = ''1200.5'', bedrooms = ''3'', predictedPrice = JNum 270100,
           error = '''',
           chartData = Some (newChartData ''1200.5''
             [JNum 230000, JNum 330000, JNum 430000, JNum 530000, JNum 630000] (JNum 270100)),
           loading = False\<rparr>
   \<and> requests (fst (handleSubmit_events mock_network (form ''1200.5'' ''3''))) =
       [''http://localhost:8000/predict/1200.5/3'',
        ''http://localhost:8000/predict/1000/3'',
        ''http://localhost:8000/predict/1500/3'',
        ''http://localhost:8000/predict/2000/3'',
        ''http://localhost:8000/predict/2500/3'',
        ''http://localhost:8000/predict/3000/3'']
   \<and> map points (datasets (newChartData ''1200.5''
        [JNum 230000, JNum 330000, JNum 430000, JNum 530000, JNum 630000] (JNum 270100)))
       = [[JNum 230000, JNum 330000, JNum 430000, JNum 530000, JNum 630000],
          [JObj [(''x'', JNum 1200), (''y'', JNum 270100)]]]
   \<and> decimal_reading ''1200.5'' = Some (2401 / 2)"
proof -
  let ?st = "form ''1200.5'' ''3''"
  have a: "0 \<in> set (arrival mock_network)"
    by (simp add: mock_network_def)
  have p: "then_predicted_price (answer mock_network 0
             (predict_url (squareFootage ?st) (bedrooms ?st))) = Inr (JNum 270100)"
    using mock_primary[OF no_slash(2) reading_1200_5] by (simp add: form_fields)
  have s: "\<forall>i<5. then_predicted_price (answer mock_network (Suc i) (sweep_urls ?st ! i)) =
             Inr ([JNum 230000, JNum 330000, JNum 430000, JNum 530000, JNum 630000] ! i)"
    using mock_sweep_prices[of ?st] by (simp add: form_fields mock_network_def)
  have b: "\<forall>i<5. Suc i \<in> set (arrival mock_network)"
    using mock_arrival by simp
  have "promise_all (sweep_promises mock_network ?st) (sweep_order mock_network) =
          Some (Inr [JNum 230000, JNum 330000, JNum 430000, JNum 530000, JNum 630000])"
    using s b by (intro sweep_fulfilled) simp_all
  then have "requests (fst (handleSubmit_events mock_network ?st)) =
       predict_url ''1200.5'' ''3'' # sweep_urls ?st"
    by (simp add: events_sweep[OF a p] requests_append requests_before_await requests_gets
        form_fields)
  then have "requests (fst (handleSubmit_events mock_network ?st)) =
       [''http://localhost:8000/predict/1200.5/3'',
        ''http://localhost:8000/predict/1000/3'',
        ''http://localhost:8000/predict/1500/3'',
        ''http://localhost:8000/predict/2000/3'',
        ''http://localhost:8000/predict/2500/3'',
        ''http://localhost:8000/predict/3000/3'']"
    by (simp add: sweep_urls_eq form_fields predict_url_def)
  with mock_network_run[OF no_slash(2) reading_1200_5] show ?thesis
    by (simp add: submit_form chart_points parseInt_1200_5 reading_1200_5)
qed

subsection \<open>C5: the state a completed submission leaves\<close>

text \<open>
  C5, as the code has it. The state is six fields, each replaced by its own setter. A
  call that runs to its end leaves the loading flag cleared and the two form fields as
  they were, and exactly one of two outcomes. Either the error is empty, the price is
  the primary price and the chart is built anew from the five fulfilled promises of
  the sweep. Or the error is the fixed message and the chart is left as it was before
  the call; then the price is \<^verbatim>\<open>null\<close> when the primary request failed, and is
  the primary price when the primary request succeeded and the sweep failed.
\<close>

theorem completed_submission_state:
  assumes "handleSubmit net st = Some st'"
  shows "\<not> loading st' \<and> squareFootage st' = squareFootage st \<and> bedrooms st' = bedrooms st
     \<and> (case then_predicted_price (answer net 0 (predict_url (squareFootage st) (bedrooms st))) of
          Inl err \<Rightarrow>
            error st' = ''Error predicting price. Please try again.''
            \<and> predictedPrice st' = JNull \<and> chartData st' = chartData st
        | Inr price \<Rightarrow>
            predictedPrice st' = price
            \<and> (error st' = ''Error predicting price. Please try again.''
                 \<and> chartData st' = chartData st
               \<or> error st' = ''''
                 \<and> (\<exists>predictions. sweep_promises net st = map Inr predictions
                      \<and> chartData st' =
                          Some (newChartData (squareFootage st) predictions price))))"
proof -
  have a: "0 \<in> set (arrival net)"
  proof (rule ccontr)
    assume "0 \<notin> set (arrival net)"
    then have "handleSubmit net st = None"
      by (simp add: handleSubmit_def events_primary_pending)
    with assms show False by simp
  qed
  show ?thesis
  proof (cases "then_predicted_price (answer net 0 (predict_url (squareFootage st) (bedrooms st)))")
    case (Inl err)
    from handleSubmit_primary_failed[OF a Inl] assms show ?thesis
      by (auto simp: Inl)
  next
    case (Inr price)
    show ?thesis
    proof (cases "promise_all (sweep_promises net st) (sweep_order net)")
      case None
      then have "handleSubmit net st = None"
        by (simp add: handleSubmit_def events_sweep[OF a Inr])
      with assms show ?thesis by simp
    next
      case (Some r)
      show ?thesis
      proof (cases r)
        case (Inl err)
        from handleSubmit_sweep_failed[OF a Inr, of err] Some Inl assms show ?thesis
          by (auto simp: Inr)
      next
        case r: (Inr predictions)
        then have "sweep_promises net st = map Inr predictions"
          using Some by (intro promise_all_resolved) simp
        moreover from handleSubmit_succeeded[OF a Inr, of predictions] Some r assms
        have "st' = st\<lparr>predictedPrice := price, error := '''',
                chartData := Some (newChartData (squareFootage st) predictions price),
                loading := False\<rparr>"
          by simp
        ultimately show ?thesis
          by (auto simp: Inr)
      qed
    qed
  qed
qed

text \<open>The service that rejects the third request of the sweep.\<close>

theorem completed_submission_state_witness:
  "handleSubmit failing_network (form ''1200'' ''3'') =
     Some \<lparr>squareFootage = ''1200'', bedrooms = ''3'', predictedPrice = JNum 270000,
           error = ''Error predicting price. Please try again.'',
           chartData = None, loading = False\<rparr>
   \<and> then_predicted_price (answer failing_network 0 (predict_url ''1200'' ''3'')) =
       Inr (JNum 270000)
   \<and> chartData (form ''1200'' ''3'') = None"
proof -
  have "then_predicted_price (answer failing_network 0 (predict_url ''1200'' ''3'')) =
       Inr (JNum 270000)"
    by (simp add: failing_network_def mock_answer_url reading_1200 reading_3 then_predicted_price_def)
  with completed_submission_state[OF failing_network_run] show ?thesis
    by (simp add: failing_network_run form_fields)
qed

text \<open>
  C5 as stated fails where the primary request succeeds and the sweep fails: the state
  then holds the error message and the predicted price together, and App shows the
  error text and the price panel side by side.
\<close>

theorem failure_shows_price_with_error:
  "submit failing_network ''1200'' ''3'' initial_state =
     Some \<lparr>squareFootage = ''1200'', bedrooms = ''3'', predictedPrice = JNum 270000,
           error = ''Error predicting price. Please try again.'',
           chartData = None, loading = False\<rparr>
   \<and> map_option App (submit failing_network ''1200'' ''3'' initial_state) =
     Some \<lparr>squareFootage_value = ''1200'', bedrooms_value = ''3'', button_disabled = False,
           button_content = ButtonText ''Predict Price'',
           error_slot = ErrorTypography ''Error predicting price. Please try again.'',
           price_slot = PricePaper (JNum 270000) ChartFalsy\<rparr>"
  by (simp add: submit_form failing_network_run App_def)

subsection \<open>C6: the state is cleared before the first request\<close>

text \<open>
  C6. Every call begins with the same four effects, before it issues any request:
  the default action is prevented, the error is cleared, the price is cleared and the
  loading flag is set. The first request follows them, so it is issued in a state
  with no error, no price and the loading flag set, whatever the state was before.
\<close>

theorem submit_enters_loading_first:
  "(\<exists>rest. fst (handleSubmit_events net st) =
             [PreventDefault, SetError '''', SetPredictedPrice JNull, SetLoading True]
             @ AxiosGet (predict_url (squareFootage st) (bedrooms st)) # rest)
   \<and> requests [PreventDefault, SetError '''', SetPredictedPrice JNull, SetLoading True] = []
   \<and> run [PreventDefault, SetError '''', SetPredictedPrice JNull, SetLoading True] st
       = st\<lparr>predictedPrice := JNull, error := '''', loading := True\<rparr>"
  by (auto simp: handleSubmit_events_def before_await_def Let_def run_def
      split: sum.splits option.splits)

subsection \<open>C7: a completed submission is not loading\<close>

text \<open>
  C7. A call that runs to its end, with success or with any failure, leaves the
  loading flag cleared. A call runs to its end whenever all six requests are answered.
  A call that does not run to its end (a request is never answered) stays loading.
\<close>

theorem completed_submission_clears_loading:
  "(\<forall>st'. handleSubmit net st = Some st' \<longrightarrow> \<not> loading st')
   \<and> ((\<forall>k<6. k \<in> set (arrival net)) \<longrightarrow> (\<exists>st'. handleSubmit net st = Some st'))
   \<and> (handleSubmit net st = None \<longrightarrow> loading (run (fst (handleSubmit_events net st)) st))"
proof (intro conjI allI impI)
  fix st' assume "handleSubmit net st = Some st'"
  then show "\<not> loading st'"
    by (auto simp: handleSubmit_def handleSubmit_events_def Let_def run_append run_before_await
        run_catch_finally run_requests run_Cons run_Nil split: sum.splits option.splits if_splits)
next
  assume every: "\<forall>k<6. k \<in> set (arrival net)"
  then have 0: "0 \<in> set (arrival net)" by simp
  from every have "\<forall>i<5. Suc i \<in> set (arrival net)" by simp
  then have "promise_all (sweep_promises net st) (sweep_order net) \<noteq> None"
    by (rule sweep_settles)
  then show "\<exists>st'. handleSubmit net st = Some st'"
    using 0 by (auto simp: handleSubmit_def handleSubmit_events_def Let_def split: sum.splits option.splits)
next
  assume "handleSubmit net st = None"
  then show "loading (run (fst (handleSubmit_events net st)) st)"
    by (auto simp: handleSubmit_def handleSubmit_events_def Let_def run_append run_before_await
        run_requests run_Cons run_Nil split: sum.splits option.splits if_splits)
qed

text \<open>The mock service, which answers everything, and the service that never answers.\<close>

theorem completed_submission_clears_loading_witness:
  "handleSubmit mock_network (form ''1200'' ''3'') =
     Some \<lparr>squareFootage = ''1200'', bedrooms = ''3'', predictedPrice = JNum 270000,
           error = '''',
           chartData = Some (newChartData ''1200''
             [JNum 230000, JNum 330000, JNum 430000, JNum 530000, JNum 630000] (JNum 270000)),
           loading = False\<rparr>
   \<and> arrival mock_network = [0, 3, 1, 5, 2, 4]
   \<and> handleSubmit silent_network (form ''1200'' ''3'') = None
   \<and> loading (run (fst (handleSubmit_events silent_network (form ''1200'' ''3''))) (form ''1200'' ''3''))"
proof -
  let ?st = "form ''1200'' ''3''"
  let ?end = "\<lparr>squareFootage = ''1200'', bedrooms = ''3'', predictedPrice = JNum 270000,
           error = '''',
           chartData = Some (newChartData ''1200''
             [JNum 230000, JNum 330000, JNum 430000, JNum 530000, JNum 630000] (JNum 270000)),
           loading = False\<rparr>"
  have m: "handleSubmit mock_network ?st = Some ?end"
    using mock_network_run[OF no_slash(1) reading_1200] by simp
  have n: "handleSubmit silent_network ?st = None"
    by (simp add: handleSubmit_def events_primary_pending silent_network_def)
  have arr: "arrival mock_network = [0, 3, 1, 5, 2, 4]"
    by (simp add: mock_network_def)
  from completed_submission_clears_loading[of silent_network ?st] n
  have "loading (run (fst (handleSubmit_events silent_network ?st)) ?st)"
    by simp
  moreover from completed_submission_clears_loading[of mock_network ?st] m
  have "\<not> loading ?end"
    by simp
  ultimately show ?thesis
    using m n arr by simp
qed

subsection \<open>C8: the example scenario\<close>

text \<open>
  C8, as the code has it. Submitting 1200 and 3 against the mock service, whose price
  is \<open>200 * sf + 10000 * bedrooms\<close>, gives the primary price 270000, the five
  reference points (1000, 230000), (1500, 330000), (2000, 430000), (2500, 530000),
  (3000, 630000) and one highlighted point at (1200, 270000).
\<close>

theorem example_scenario:
  "submit mock_network ''1200'' ''3'' initial_state =
     Some \<lparr>squareFootage = ''1200'', bedrooms = ''3'', predictedPrice = JNum 270000,
           error = '''',
           chartData = Some (newChartData ''1200''
             [JNum 230000, JNum 330000, JNum 430000, JNum 530000, JNum 630000] (JNum 270000)),
           loading = False\<rparr>
   \<and> labels (newChartData ''1200''
        [JNum 230000, JNum 330000, JNum 430000, JNum 530000, JNum 630000] (JNum 270000))
       = [JNum 1000, JNum 1500, JNum 2000, JNum 2500, JNum 3000]
   \<and> map points (datasets (newChartData ''1200''
        [JNum 230000, JNum 330000, JNum 430000, JNum 530000, JNum 630000] (JNum 270000)))
       = [[JNum 230000, JNum 330000, JNum 430000, JNum 530000, JNum 630000],
          [JObj [(''x'', JNum 1200), (''y'', JNum 270000)]]]"
  using mock_network_run[OF no_slash(1) reading_1200]
  by (simp add: submit_form chart_labels chart_points parseInt_1200)

text \<open>C8 as stated fails: the primary price of the scenario is not 280000.\<close>

theorem example_scenario_price_not_280000:
  "map_option predictedPrice (submit mock_network ''1200'' ''3'' initial_state)
     \<noteq> Some (JNum 280000)"
  using mock_network_run[OF no_slash(1) reading_1200]
  by (simp add: submit_form)

subsection \<open>C9: a price of 0\<close>

text \<open>
  C9, as the code has it. Whenever all six requests are fulfilled and answered and the
  primary price is 0, the price panel is not part of what App returns, although the
  chart data is set: neither the price text nor the chart is rendered, because the
  panel is guarded by the truthiness of the price. The guard evaluates to the number
  0 itself, which stands in the panel's place as a child, and React prints a number
  in child position as text. So the price of 0 is not displayed like the form before
  its first submission: there the child in that place is \<^verbatim>\<open>null\<close>, and React
  prints nothing for it.
\<close>

theorem zero_price_hides_panel:
  assumes "0 \<in> set (arrival net)"
    and "then_predicted_price (answer net 0 (predict_url (squareFootage st) (bedrooms st))) = Inr (JNum 0)"
    and "length prices = 5"
    and "\<forall>i<5. then_predicted_price (answer net (Suc i) (sweep_urls st ! i)) = Inr (prices ! i)"
    and "\<forall>i<5. Suc i \<in> set (arrival net)"
  shows "(\<exists>st'. handleSubmit net st = Some st'
           \<and> chartData st' = Some (newChartData (squareFootage st) prices (JNum 0))
           \<and> error_slot (App st') = ErrorFalsy ''''
           \<and> price_slot (App st') = PriceFalsy (JNum 0))
     \<and> react_child (JNum 0) = TextOf (JNum 0)
     \<and> price_slot (App (form sf bd)) = PriceFalsy JNull
     \<and> react_child JNull = Nothing"
proof -
  have "handleSubmit net st =
           Some (st\<lparr>predictedPrice := JNum 0, error := '''',
                    chartData := Some (newChartData (squareFootage st) prices (JNum 0)),
                    loading := False\<rparr>)"
    using assms by (intro handleSubmit_succeeded sweep_fulfilled)
  then have "\<exists>st'. handleSubmit net st = Some st'
           \<and> chartData st' = Some (newChartData (squareFootage st) prices (JNum 0))
           \<and> error_slot (App st') = ErrorFalsy ''''
           \<and> price_slot (App st') = PriceFalsy (JNum 0)"
    by (simp add: App_def)
  moreover have "price_slot (App (form sf bd)) = PriceFalsy JNull"
    by (simp add: App_def form_fields)
  ultimately show ?thesis
    by simp
qed

text \<open>The service that prices everything at 0.\<close>

theorem zero_price_hides_panel_witness:
  "then_predicted_price (answer zero_network 0 (predict_url ''1200'' ''3'')) = Inr (JNum 0)
   \<and> arrival zero_network = [0, 1, 2, 3, 4, 5]
   \<and> (\<exists>st'. handleSubmit zero_network (form ''1200'' ''3'') = Some st'
         \<and> chartData st' =
             Some (newChartData ''1200'' [JNum 0, JNum 0, JNum 0, JNum 0, JNum 0] (JNum 0))
         \<and> error_slot (App st') = ErrorFalsy ''''
         \<and> price_slot (App st') = PriceFalsy (JNum 0))
   \<and> price_slot (App (form ''1200'' ''3'')) = PriceFalsy JNull"
proof -
  let ?st = "form ''1200'' ''3''"
  let ?prices = "[JNum 0, JNum 0, JNum 0, JNum 0, JNum 0]"
  have a: "0 \<in> set (arrival zero_network)"
    by (simp add: zero_network_def)
  have p: "then_predicted_price (answer zero_network 0
             (predict_url (squareFootage ?st) (bedrooms ?st))) = Inr (JNum 0)"
    by (simp add: zero_network_def then_predicted_price_def)
  have len: "length ?prices = 5" by simp
  have s: "\<forall>i<5. then_predicted_price (answer zero_network (Suc i) (sweep_urls ?st ! i)) =
             Inr (?prices ! i)"
    by (auto simp: less_5_cases zero_network_def then_predicted_price_def)
  have b: "\<forall>i<5. Suc i \<in> set (arrival zero_network)"
    by (auto simp: less_5_cases zero_network_def)
  from zero_price_hides_panel[OF a p len s b, of "''1200''" "''3''"] show ?thesis
    using p by (simp add: form_fields zero_network_def)
qed

text \<open>
  C9 as stated fails in its last part: after the submission priced at 0 the child in
  the panel's place is the number 0, which is printed, and on the same form before
  its first submission it is \<^verbatim>\<open>null\<close>, which is not. The two pages differ.
\<close>

theorem zero_price_leaves_a_zero:
  "map_option App (submit zero_network ''1200'' ''3'' initial_state) =
     Some \<lparr>squareFootage_value = ''1200'', bedrooms_value = ''3'', button_disabled = False,
           button_content = ButtonText ''Predict Price'',
           error_slot = ErrorFalsy '''',
           price_slot = PriceFalsy (JNum 0)\<rparr>
   \<and> App (form ''1200'' ''3'') =
     \<lparr>squareFootage_value = ''1200'', bedrooms_value = ''3'', button_disabled = False,
      button_content = ButtonText ''Predict Price'',
      error_slot = ErrorFalsy '''',
      price_slot = PriceFalsy JNull\<rparr>
   \<and> react_child (JNum 0) = TextOf (JNum 0)
   \<and> react_child JNull = Nothing"
proof -
  have "map_option App (submit zero_network ''1200'' ''3'' initial_state) =
     Some \<lparr>squareFootage_value = ''1200'', bedrooms_value = ''3'', button_disabled = False,
           button_content = ButtonText ''Predict Price'',
           error_slot = ErrorFalsy '''',
           price_slot = PriceFalsy (JNum 0)\<rparr>"
    by (simp add: submit_form zero_network_run App_def)
  moreover have "App (form ''1200'' ''3'') =
     \<lparr>squareFootage_value = ''1200'', bedrooms_value = ''3'', button_disabled = False,
      button_content = ButtonText ''Predict Price'',
      error_slot = ErrorFalsy '''',
      price_slot = PriceFalsy JNull\<rparr>"
    by (simp add: App_def form_record)
  ultimately show ?thesis by simp
qed

subsection \<open>C10: the highlighted point is at parseInt of the raw square footage\<close>

text \<open>
  C10. Whenever all six requests are fulfilled and answered, the primary request asks
  the URL that holds the raw square footage as it was typed, and the highlighted
  point's x is \<open>parseInt\<close> of that raw text. Whenever the raw text reads as a number
  that is not an integer, the x differs from that number. For a raw text of an
  optional sign, digits, a point and digits, the x is the Number value of the reading
  truncated towards 0: the truncation itself when the reading is below \<open>2 ^ 53\<close> in
  magnitude, the double nearest to it otherwise.
\<close>

theorem highlighted_x_is_parseInt:
  assumes "0 \<in> set (arrival net)"
    and "then_predicted_price (answer net 0 (predict_url (squareFootage st) (bedrooms st))) = Inr price"
    and "length prices = 5"
    and "\<forall>i<5. then_predicted_price (answer net (Suc i) (sweep_urls st ! i)) = Inr (prices ! i)"
    and "\<forall>i<5. Suc i \<in> set (arrival net)"
  shows "hd (requests (fst (handleSubmit_events net st))) =
           ''http://localhost:8000/predict/'' @ squareFootage st @ ''/'' @ bedrooms st
     \<and> (\<exists>st' c. handleSubmit net st = Some st' \<and> chartData st' = Some c
           \<and> map points (datasets c) =
               [prices, [JObj [(''x'', parseInt (squareFootage st)), (''y'', price)]]])
     \<and> (\<forall>r. decimal_reading (squareFootage st) = Some r \<and> r \<notin> \<int> \<longrightarrow>
           parseInt (squareFootage st) \<noteq> JNum r)
     \<and> (\<forall>sg ip fp. squareFootage st = sg @ ip @ CHR ''.'' # fp
             \<and> (sg = [] \<or> sg = ''+'' \<or> sg = ''-'') \<and> ip \<noteq> []
             \<and> list_all (is_digit 10) ip \<and> list_all (is_digit 10) fp \<longrightarrow>
           (\<exists>r. decimal_reading (squareFootage st) = Some r
              \<and> parseInt (squareFootage st) = js_number (sg = ''-'') (nat \<lfloor>\<bar>r\<bar>\<rfloor>)
              \<and> (\<bar>r\<bar> < 2 ^ 53 \<longrightarrow>
                   parseInt (squareFootage st) =
                     JNum (of_int (if r < 0 then \<lceil>r\<rceil> else \<lfloor>r\<rfloor>)))))"
proof (intro conjI allI impI)
  show "hd (requests (fst (handleSubmit_events net st))) =
           ''http://localhost:8000/predict/'' @ squareFootage st @ ''/'' @ bedrooms st"
    by (simp add: events_sweep[OF assms(1,2)] requests_append requests_before_await predict_url_def
        split: option.splits sum.splits)
next
  have "handleSubmit net st =
           Some (st\<lparr>predictedPrice := price, error := '''',
                    chartData := Some (newChartData (squareFootage st) prices price),
                    loading := False\<rparr>)"
    using assms by (intro handleSubmit_succeeded sweep_fulfilled)
  then show "\<exists>st' c. handleSubmit net st = Some st' \<and> chartData st' = Some c
           \<and> map points (datasets c) =
               [prices, [JObj [(''x'', parseInt (squareFootage st)), (''y'', price)]]]"
    by (simp add: chart_points)
next
  fix r assume "decimal_reading (squareFootage st) = Some r \<and> r \<notin> \<int>"
  then show "parseInt (squareFootage st) \<noteq> JNum r"
    by (simp add: parseInt_not_fraction)
next
  fix sg ip fp
  assume h: "squareFootage st = sg @ ip @ CHR ''.'' # fp
             \<and> (sg = [] \<or> sg = ''+'' \<or> sg = ''-'') \<and> ip \<noteq> []
             \<and> list_all (is_digit 10) ip \<and> list_all (is_digit 10) fp"
  define n where "n = digits_value 10 ip"
  define m :: rat where "m = of_nat n + of_nat (digits_value 10 fp) / 10 ^ length fp"
  define r :: rat where "r = (if sg = ''-'' then - m else m)"
  have reading: "decimal_reading (squareFootage st) = Some r"
    using h by (simp add: decimal_reading_fraction r_def m_def n_def)
  have x: "parseInt (squareFootage st) = js_number (sg = ''-'') n"
    using h parseInt_digits[of sg ip "CHR ''.'' # fp"] by (simp add: n_def)
  have fl: "\<lfloor>m\<rfloor> = int n"
    unfolding m_def using h by (intro floor_digits_fraction) simp
  then have m0: "0 \<le> m" "of_nat n \<le> m"
    by (simp_all add: m_def)
  have abs: "\<bar>r\<bar> = m"
    using m0 by (simp add: r_def)
  have trunc: "nat \<lfloor>\<bar>r\<bar>\<rfloor> = n"
    by (simp add: abs fl)
  have exact: "parseInt (squareFootage st) = JNum (of_int (if r < 0 then \<lceil>r\<rceil> else \<lfloor>r\<rfloor>))"
    if small: "\<bar>r\<bar> < 2 ^ 53"
  proof -
    have "(of_nat n :: rat) < 2 ^ 53"
      using small m0 abs by simp
    then have "(of_nat n :: rat) < of_nat (2 ^ 53)"
      by simp
    then have "n < 2 ^ 53"
      by (simp only: of_nat_less_iff)
    then have js: "js_number (sg = ''-'') n = (if sg = ''-'' then JNum (- of_nat n) else JNum (of_nat n))"
      by (rule js_number_small)
    show ?thesis
    proof (cases "sg = ''-''")
      case False
      then have "r = m" by (simp add: r_def)
      then show ?thesis
        using False m0 fl js x by simp
    next
      case True
      then have rm: "r = - m" by (simp add: r_def)
      show ?thesis
      proof (cases "m = 0")
        case True
        then have "n = 0" using fl by simp
        then show ?thesis
          using \<open>sg = ''-''\<close> True rm js x by simp
      next
        case False
        then have "r < 0" using m0 rm by simp
        moreover have "\<lceil>r\<rceil> = - int n"
          using fl by (simp add: rm ceiling_minus)
        ultimately show ?thesis
          using True js x by simp
      qed
    qed
  qed
  show "\<exists>r. decimal_reading (squareFootage st) = Some r
          \<and> parseInt (squareFootage st) = js_number (sg = ''-'') (nat \<lfloor>\<bar>r\<bar>\<rfloor>)
          \<and> (\<bar>r\<bar> < 2 ^ 53 \<longrightarrow>
               parseInt (squareFootage st) =
                 JNum (of_int (if r < 0 then \<lceil>r\<rceil> else \<lfloor>r\<rfloor>)))"
    using reading x trunc exact by (intro exI[of _ r]) simp
qed

text \<open>The mock service on the form filled with 1200.5 and 3.\<close>

theorem highlighted_x_is_parseInt_witness:
  "then_predicted_price (answer mock_network 0 (predict_url ''1200.5'' ''3'')) = Inr (JNum 270100)
   \<and> sweep_promises mock_network (form ''1200.5'' ''3'') =
       map Inr [JNum 230000, JNum 330000, JNum 430000, JNum 530000, JNum 630000]
   \<and> arrival mock_network = [0, 3, 1, 5, 2, 4]
   \<and> hd (requests (fst (handleSubmit_events mock_network (form ''1200.5'' ''3'')))) =
       ''http://localhost:8000/predict/1200.5/3''
   \<and> (\<exists>st' c. handleSubmit mock_network (form ''1200.5'' ''3'') = Some st'
         \<and> chartData st' = Some c
         \<and> map points (datasets c) =
             [[JNum 230000, JNum 330000, JNum 430000, JNum 530000, JNum 630000],
              [JObj [(''x'', JNum 1200), (''y'', JNum 270100)]]])
   \<and> decimal_reading ''1200.5'' = Some (2401 / 2)
   \<and> (2401 / 2 :: rat) \<notin> \<int>
   \<and> parseInt ''1200.5'' \<noteq> JNum (2401 / 2)
   \<and> (\<exists>r. decimal_reading ''1200.5'' = Some r \<and> \<bar>r\<bar> < 2 ^ 53
         \<and> parseInt ''1200.5'' = JNum (of_int (if r < 0 then \<lceil>r\<rceil> else \<lfloor>r\<rfloor>)))"
proof -
  let ?st = "form ''1200.5'' ''3''"
  let ?prices = "[JNum 230000, JNum 330000, JNum 430000, JNum 530000, JNum 630000]"
  have a: "0 \<in> set (arrival mock_network)"
    by (simp add: mock_network_def)
  have p0: "then_predicted_price (answer mock_network 0 (predict_url ''1200.5'' ''3'')) = Inr (JNum 270100)"
    using mock_primary[OF no_slash(2) reading_1200_5] by simp
  then have p: "then_predicted_price (answer mock_network 0
                  (predict_url (squareFootage ?st) (bedrooms ?st))) = Inr (JNum 270100)"
    by (simp add: form_fields)
  have len: "length ?prices = 5" by simp
  have s: "\<forall>i<5. then_predicted_price (answer mock_network (Suc i) (sweep_urls ?st ! i)) =
             Inr (?prices ! i)"
    using mock_sweep_prices[of ?st] by (simp add: form_fields mock_network_def)
  have b: "\<forall>i<5. Suc i \<in> set (arrival mock_network)"
    using mock_arrival by simp
  have arr: "arrival mock_network = [0, 3, 1, 5, 2, 4]"
    by (simp add: mock_network_def)
  note inst = highlighted_x_is_parseInt[OF a p len s b]
  have url: "hd (requests (fst (handleSubmit_events mock_network ?st))) =
       ''http://localhost:8000/predict/1200.5/3''"
    using inst by (simp add: form_fields)
  have chart: "\<exists>st' c. handleSubmit mock_network ?st = Some st'
         \<and> chartData st' = Some c
         \<and> map points (datasets c) = [?prices, [JObj [(''x'', JNum 1200), (''y'', JNum 270100)]]]"
    using inst by (simp add: form_fields parseInt_1200_5)
  have ne: "parseInt ''1200.5'' \<noteq> JNum (2401 / 2)"
    using inst reading_1200_5 half_not_int by (simp add: form_fields)
  have parts: "squareFootage ?st = [] @ ''1200'' @ CHR ''.'' # ''5''
      \<and> ([] = [] \<or> [] = ''+'' \<or> [] = ''-'') \<and> ''1200'' \<noteq> []
      \<and> list_all (is_digit 10) ''1200'' \<and> list_all (is_digit 10) ''5''"
    using digits_1200 by (simp add: form_fields)
  from inst parts obtain r where
    r: "decimal_reading (squareFootage ?st) = Some r"
    and small: "\<bar>r\<bar> < 2 ^ 53 \<longrightarrow>
                   parseInt (squareFootage ?st) =
                     JNum (of_int (if r < 0 then \<lceil>r\<rceil> else \<lfloor>r\<rfloor>))"
    by blast
  from r have "r = 2401 / 2"
    by (simp add: form_fields reading_1200_5)
  then have "\<bar>r\<bar> < 2 ^ 53"
    by simp
  with r small have fl: "\<exists>r. decimal_reading ''1200.5'' = Some r \<and> \<bar>r\<bar> < 2 ^ 53
         \<and> parseInt ''1200.5'' = JNum (of_int (if r < 0 then \<lceil>r\<rceil> else \<lfloor>r\<rfloor>))"
    by (auto simp: form_fields)
  show ?thesis
    using p0 url chart ne fl reading_1200_5 half_not_int arr mock_sweep_promises[of "''1200.5''"]
    by blast
qed

end
